theory Spec2Isabelle
  imports
    Main
    "HOL-Library.Word"
    "HOL-Library.Char_ord"
    "HOL-Library.List_Lexorder"
    "HOL-Library.Multiset"
begin

unbundle bit_operations_syntax

section \<open>The ETCI 2021 dataset loader (torchgeo/datasets/etci2021.py)\<close>

subsection \<open>Exceptions, paths and the file system\<close>

text \<open>
  Every exception the module can raise is a value; a function that may raise returns
  \<open>py_error + 'a\<close> with the exception on the left.
\<close>

datatype py_error =
    AssertionError
  | RuntimeError string
  | KeyError string
  | IndexError
  | ValueError
  | OverflowError
  | AttributeError
  | OSError string

text \<open>Sequencing of two steps, the second of which runs only if the first did not raise.\<close>

definition ebind :: "py_error + 'a \<Rightarrow> ('a \<Rightarrow> py_error + 'b) \<Rightarrow> py_error + 'b" where
  "ebind m f = (case m of Inl e \<Rightarrow> Inl e | Inr x \<Rightarrow> f x)"

text \<open>
  \<open>os.path.join\<close> on POSIX: a component that starts with the separator restarts the
  path; otherwise it is appended, with a separator unless the path so far is empty or
  already ends with one.
\<close>

definition join_step :: "string \<Rightarrow> string \<Rightarrow> string" where
  "join_step path b =
     (if b \<noteq> [] \<and> hd b = CHR ''/'' then b
      else if path = [] \<or> last path = CHR ''/'' then path @ b
      else path @ ''/'' @ b)"

definition os_path_join :: "string \<Rightarrow> string list \<Rightarrow> string" where
  "os_path_join a p = foldl join_step a p"

text \<open>
  The process state the module runs in: the file system as it reads it
  (\<open>os.path.exists\<close>, and \<open>glob.glob\<close> returning the matches in whatever order the
  operating system lists them) and the state of torch's global random number generator.
\<close>

record 'g world =
  path_exists :: "string \<Rightarrow> bool"
  glob_glob :: "string \<Rightarrow> string list"
  default_generator :: 'g

subsection \<open>Class constants\<close>

record split_meta =
  filename :: string
  md5 :: string
  directory :: string
  url :: string

definition metadata :: "(string \<times> split_meta) list" where
  "metadata =
     [(''train'',
        \<lparr>filename = ''train.zip'',
         md5 = ''1e95792fe0f6e3c9000abdeab2a8ab0f'',
         directory = ''train'',
         url = ''https://drive.google.com/file/d/14HqNW5uWLS92n7KrxKgDwUTsSEST6LCr''\<rparr>),
      (''val'',
        \<lparr>filename = ''val_with_ref_labels.zip'',
         md5 = ''fd18cecb318efc69f8319f90c3771bdf'',
         directory = ''test'',
         url = ''https://drive.google.com/file/d/19sriKPHCZLfJn_Jmk3Z_0b3VaCBVRVyn''\<rparr>),
      (''test'',
        \<lparr>filename = ''test_without_ref_labels.zip'',
         md5 = ''da9fa69e1498bd49d5c766338c6dac3d'',
         directory = ''test_internal'',
         url = ''https://drive.google.com/file/d/1rpMVluASnSHBfm2FhpPDio0GyCPOqg7E''\<rparr>)]"

text \<open>\<open>self.metadata[split]\<close>: a missing key raises \<open>KeyError\<close>.\<close>

definition metadata_lookup :: "string \<Rightarrow> py_error + split_meta" where
  "metadata_lookup split =
     (case map_of metadata split of None \<Rightarrow> Inl (KeyError split) | Some m \<Rightarrow> Inr m)"

subsection \<open>\<open>ETCI2021._load_files\<close>\<close>

text \<open>
  A record of the index is a Python dict built with keyword arguments; it is kept as the
  list of its key/value pairs in insertion order.
\<close>

type_synonym file_rec = "(string \<times> string) list"

definition dict_get :: "(string \<times> 'v) list \<Rightarrow> string \<Rightarrow> py_error + 'v" where
  "dict_get d k = (case map_of d k of None \<Rightarrow> Inl (KeyError k) | Some v \<Rightarrow> Inr v)"

text \<open>Python's \<open>zip\<close> of three and of four lists stops with the shortest.\<close>

definition zip3 :: "'a list \<Rightarrow> 'b list \<Rightarrow> 'c list \<Rightarrow> ('a \<times> 'b \<times> 'c) list" where
  "zip3 xs ys zs = zip xs (zip ys zs)"

definition zip4 ::
  "'a list \<Rightarrow> 'b list \<Rightarrow> 'c list \<Rightarrow> 'd list \<Rightarrow> ('a \<times> 'b \<times> 'c \<times> 'd) list" where
  "zip4 ws xs ys zs = zip ws (zip xs (zip ys zs))"

definition dict4 :: "string \<times> string \<times> string \<times> string \<Rightarrow> file_rec" where
  "dict4 t = (case t of (vv, vh, flood_mask, water_mask) \<Rightarrow>
     [(''vv'', vv), (''vh'', vh), (''flood_mask'', flood_mask), (''water_mask'', water_mask)])"

definition dict3 :: "string \<times> string \<times> string \<Rightarrow> file_rec" where
  "dict3 t = (case t of (vv, vh, water_mask) \<Rightarrow>
     [(''vv'', vv), (''vh'', vh), (''water_mask'', water_mask)])"

text \<open>
  The body of \<open>for folder in folders\<close>: four (three for the test split) sorted globs, then
  one \<open>files.append\<close> for each tuple of the zip.
\<close>

definition folder_body ::
  "(string \<Rightarrow> string list) \<Rightarrow> string \<Rightarrow> file_rec list \<Rightarrow> string \<Rightarrow> file_rec list" where
  "folder_body gl split files folder =
     (let vvs = sort (gl (os_path_join folder [''vv'', ''*.png'']));
          vhs = sort (gl (os_path_join folder [''vh'', ''*.png'']));
          water_masks = sort (gl (os_path_join folder [''water_body_label'', ''*.png'']))
      in if split \<noteq> ''test'' then
           (let flood_masks = sort (gl (os_path_join folder [''flood_label'', ''*.png'']))
            in foldl (\<lambda>files t. files @ [dict4 t]) files
                 (zip4 vvs vhs flood_masks water_masks))
         else foldl (\<lambda>files t. files @ [dict3 t]) files (zip3 vvs vhs water_masks))"

definition load_files ::
  "(string \<Rightarrow> string list) \<Rightarrow> string \<Rightarrow> string \<Rightarrow> py_error + file_rec list" where
  "load_files gl root split =
     (case metadata_lookup split of
        Inl e \<Rightarrow> Inl e
      | Inr m \<Rightarrow>
          (let folders = sort (gl (os_path_join root [directory m, ''*'']));
               folders = map (\<lambda>folder. os_path_join folder [''tiles'']) folders
           in Inr (foldl (folder_body gl split) [] folders)))"

text \<open>
  The procedure in the words of the specification, "a plain sorted zip of glob results":
  the records of one folder, and the folders of a split in the order they are visited.
\<close>

definition sorted_zip_records ::
  "(string \<Rightarrow> string list) \<Rightarrow> string \<Rightarrow> string \<Rightarrow> file_rec list" where
  "sorted_zip_records gl split folder =
     (if split \<noteq> ''test'' then
        map dict4
          (zip4 (sort (gl (os_path_join folder [''vv'', ''*.png''])))
                (sort (gl (os_path_join folder [''vh'', ''*.png''])))
                (sort (gl (os_path_join folder [''flood_label'', ''*.png''])))
                (sort (gl (os_path_join folder [''water_body_label'', ''*.png'']))))
      else
        map dict3
          (zip3 (sort (gl (os_path_join folder [''vv'', ''*.png''])))
                (sort (gl (os_path_join folder [''vh'', ''*.png''])))
                (sort (gl (os_path_join folder [''water_body_label'', ''*.png''])))))"

definition split_folders :: "(string \<Rightarrow> string list) \<Rightarrow> string \<Rightarrow> string \<Rightarrow> string list" where
  "split_folders gl root dir =
     map (\<lambda>folder. os_path_join folder [''tiles'']) (sort (gl (os_path_join root [dir, ''*''])))"

definition channel_files :: "(string \<Rightarrow> string list) \<Rightarrow> string \<Rightarrow> string \<Rightarrow> string list" where
  "channel_files gl folder name = gl (os_path_join folder [name, ''*.png''])"

subsection \<open>Tensors and decoded images\<close>

text \<open>
  A tensor is its shape together with its elements as nested lists, outermost dimension
  first. The tensors torch builds are the valid ones: the nesting agrees with the shape.
\<close>

type_synonym uint8 = "8 word"
type_synonym long = "64 word"

record 'a tensor2 =
  shape2 :: "nat \<times> nat"
  data2 :: "'a list list"

record 'a tensor3 =
  shape3 :: "nat \<times> nat \<times> nat"
  data3 :: "'a list list list"

definition valid2 :: "'a tensor2 \<Rightarrow> bool" where
  "valid2 t = (case shape2 t of (h, w) \<Rightarrow>
     length (data2 t) = h \<and> list_all (\<lambda>row. length row = w) (data2 t))"

definition valid3 :: "'a tensor3 \<Rightarrow> bool" where
  "valid3 t = (case shape3 t of (c, h, w) \<Rightarrow>
     length (data3 t) = c \<and>
     list_all (\<lambda>ch. length ch = h \<and> list_all (\<lambda>row. length row = w) ch) (data3 t))"

definition map_tensor2 :: "('a \<Rightarrow> 'b) \<Rightarrow> 'a tensor2 \<Rightarrow> 'b tensor2" where
  "map_tensor2 f t = \<lparr>shape2 = shape2 t, data2 = map (map f) (data2 t)\<rparr>"

definition map_tensor3 :: "('a \<Rightarrow> 'b) \<Rightarrow> 'a tensor3 \<Rightarrow> 'b tensor3" where
  "map_tensor3 f t = \<lparr>shape3 = shape3 t, data3 = map (map (map f)) (data3 t)\<rparr>"

text \<open>
  The imaging library (PIL) is outside the repository. A decoded picture has a width, a
  height and a pixel at every position \<open>(x, y)\<close>; \<open>Image.open\<close> may raise, and
  \<open>convert("RGB")\<close> and \<open>convert("L")\<close> give three 8-bit samples and one 8-bit sample
  per pixel.
\<close>

record 'p picture =
  width :: nat
  height :: nat
  pixel :: "nat \<Rightarrow> nat \<Rightarrow> 'p"

record 'img pil =
  Image_open :: "string \<Rightarrow> py_error + 'img"
  convert_RGB :: "'img \<Rightarrow> (uint8 \<times> uint8 \<times> uint8) picture"
  convert_L :: "'img \<Rightarrow> uint8 picture"

text \<open>\<open>np.array\<close> of a picture: height by width by channels, and height by width.\<close>

definition np_array_RGB :: "(uint8 \<times> uint8 \<times> uint8) picture \<Rightarrow> uint8 tensor3" where
  "np_array_RGB img =
     \<lparr>shape3 = (height img, width img, 3),
      data3 = map (\<lambda>y. map (\<lambda>x. case pixel img x y of (r, g, b) \<Rightarrow> [r, g, b])
                            [0..<width img])
                  [0..<height img]\<rparr>"

definition np_array_L :: "uint8 picture \<Rightarrow> uint8 tensor2" where
  "np_array_L img =
     \<lparr>shape2 = (height img, width img),
      data2 = map (\<lambda>y. map (\<lambda>x. pixel img x y) [0..<width img]) [0..<height img]\<rparr>"

text \<open>\<open>tensor.permute((2, 0, 1))\<close>: the last dimension becomes the first.\<close>

definition permute_201 :: "'a tensor3 \<Rightarrow> 'a tensor3" where
  "permute_201 t = (case shape3 t of (h, w, c) \<Rightarrow>
     \<lparr>shape3 = (c, h, w),
      data3 = map (\<lambda>k. map (map (\<lambda>px. px ! k)) (data3 t)) [0..<c]\<rparr>)"

text \<open>
  \<open>torch.cat\<close> and \<open>torch.stack\<close> along dimension 0, \<open>unsqueeze(0)\<close> and indexing
  along dimension 0. Concatenation requires the other dimensions to agree, stacking
  requires equal shapes; torch raises \<open>RuntimeError\<close> otherwise.
\<close>

definition cat0 :: "'a tensor3 \<Rightarrow> 'a tensor3 \<Rightarrow> py_error + 'a tensor3" where
  "cat0 a b = (case (shape3 a, shape3 b) of ((c1, hw1), (c2, hw2)) \<Rightarrow>
     if hw1 \<noteq> hw2 then Inl (RuntimeError ''Sizes of tensors must match except in dimension 0'')
     else Inr \<lparr>shape3 = (c1 + c2, hw1), data3 = data3 a @ data3 b\<rparr>)"

definition stack0 :: "'a tensor2 \<Rightarrow> 'a tensor2 \<Rightarrow> py_error + 'a tensor3" where
  "stack0 a b =
     (if shape2 a \<noteq> shape2 b then
        Inl (RuntimeError ''stack expects each tensor to be equal size'')
      else Inr \<lparr>shape3 = (2, shape2 a), data3 = [data2 a, data2 b]\<rparr>)"

definition unsqueeze0 :: "'a tensor2 \<Rightarrow> 'a tensor3" where
  "unsqueeze0 a = \<lparr>shape3 = (1, shape2 a), data3 = [data2 a]\<rparr>"

definition select0 :: "'a tensor3 \<Rightarrow> nat \<Rightarrow> py_error + 'a tensor2" where
  "select0 t i = (case shape3 t of (c, hw) \<Rightarrow>
     if i < c then Inr \<lparr>shape2 = hw, data2 = data3 t ! i\<rparr> else Inl IndexError)"

text \<open>\<open>torch.clamp(x, min, max)\<close> on unsigned bytes.\<close>

definition clamp :: "uint8 \<Rightarrow> uint8 \<Rightarrow> uint8 \<Rightarrow> uint8" where
  "clamp lo hi x = min (max x lo) hi"

subsection \<open>\<open>ETCI2021\<close>: loading one sample\<close>

definition load_image :: "'img pil \<Rightarrow> string \<Rightarrow> py_error + uint8 tensor3" where
  "load_image lib path =
     (let filename = os_path_join path []
      in ebind (Image_open lib filename) (\<lambda>img.
           let tensor = np_array_RGB (convert_RGB lib img);
               tensor = permute_201 tensor
           in Inr tensor))"

definition load_target :: "'img pil \<Rightarrow> string \<Rightarrow> py_error + long tensor2" where
  "load_target lib path =
     (let filename = os_path_join path []
      in ebind (Image_open lib filename) (\<lambda>img.
           let tensor = np_array_L (convert_L lib img);
               tensor = map_tensor2 (clamp 0 1) tensor;
               tensor = map_tensor2 ucast tensor
           in Inr tensor))"

text \<open>
  Names for what the two loaders return once the file is open: the picture in
  channels-first layout, and the 0/1 mask of a grey picture (shown below to be what
  \<open>_load_target\<close> computes).
\<close>

definition chw :: "(uint8 \<times> uint8 \<times> uint8) picture \<Rightarrow> uint8 tensor3" where
  "chw img = permute_201 (np_array_RGB img)"

definition binary :: "uint8 picture \<Rightarrow> long tensor2" where
  "binary img =
     \<lparr>shape2 = (height img, width img),
      data2 = map (\<lambda>y. map (\<lambda>x. if pixel img x y = 0 then 0 else 1) [0..<width img])
                  [0..<height img]\<rparr>"

record ('i, 'm) sample =
  sample_image :: 'i
  sample_mask :: 'm

type_synonym raw_sample = "(uint8 tensor3, long tensor3) sample"

text \<open>
  The dataset object. \<open>transforms\<close> is \<open>None\<close> or a function on samples that may raise and
  may change the type of the sample.
\<close>

record 's ETCI2021 =
  ds_root :: string
  ds_split :: string
  ds_transforms :: "(raw_sample \<Rightarrow> py_error + 's) option"
  ds_checksum :: bool
  ds_files :: "file_rec list"

text \<open>Python list indexing: a negative index counts from the end.\<close>

definition py_index :: "'a list \<Rightarrow> int \<Rightarrow> py_error + 'a" where
  "py_index xs i =
     (let n = int (length xs); j = (if i < 0 then i + n else i)
      in if 0 \<le> j \<and> j < n then Inr (xs ! nat j) else Inl IndexError)"

text \<open>
  \<open>__getitem__\<close>: without transforms the sample is returned as built (left), with
  transforms their result is returned (right).
\<close>

definition getitem :: "'img pil \<Rightarrow> 's ETCI2021 \<Rightarrow> int \<Rightarrow> py_error + (raw_sample + 's)" where
  "getitem lib self index =
     ebind (py_index (ds_files self) index) (\<lambda>files.
     ebind (ebind (dict_get files ''vv'') (load_image lib)) (\<lambda>vv.
     ebind (ebind (dict_get files ''vh'') (load_image lib)) (\<lambda>vh.
     ebind (ebind (dict_get files ''water_mask'') (load_target lib)) (\<lambda>water_mask.
     ebind (if ds_split self \<noteq> ''test'' then
              ebind (ebind (dict_get files ''flood_mask'') (load_target lib)) (\<lambda>flood_mask.
                stack0 water_mask flood_mask)
            else Inr (unsqueeze0 water_mask)) (\<lambda>mask.
     ebind (cat0 vv vh) (\<lambda>image.
       let sample = \<lparr>sample_image = image, sample_mask = mask\<rparr>
       in case ds_transforms self of
            None \<Rightarrow> Inr (Inl sample)
          | Some f \<Rightarrow> ebind (f sample) (\<lambda>sample. Inr (Inr sample))))))))"

definition len :: "'s ETCI2021 \<Rightarrow> nat" where
  "len self = length (ds_files self)"

subsection \<open>\<open>ETCI2021\<close>: construction\<close>

definition check_integrity :: "'g world \<Rightarrow> string \<Rightarrow> string \<Rightarrow> py_error + bool" where
  "check_integrity w root split =
     ebind (metadata_lookup split) (\<lambda>m.
       let dirpath = os_path_join root [directory m]
       in if \<not> path_exists w dirpath then Inr False else Inr True)"

text \<open>
  \<open>download_and_extract_archive\<close> lives in the repository's \<open>utils\<close> module, which is not
  part of the sources at hand; it is a parameter: given the url, the root, the file name
  and the optional checksum it changes the world or raises.
\<close>

type_synonym 'g downloader =
  "string \<Rightarrow> string \<Rightarrow> string \<Rightarrow> string option \<Rightarrow> 'g world \<Rightarrow> (py_error + unit) \<times> 'g world"

definition download ::
  "'g downloader \<Rightarrow> 'g world \<Rightarrow> string \<Rightarrow> string \<Rightarrow> bool \<Rightarrow> (py_error + unit) \<times> 'g world" where
  "download dl w root split checksum =
     (case check_integrity w root split of
        Inl e \<Rightarrow> (Inl e, w)
      | Inr True \<Rightarrow> (Inr (), w)
      | Inr False \<Rightarrow>
          (case metadata_lookup split of
             Inl e \<Rightarrow> (Inl e, w)
           | Inr m \<Rightarrow> dl (url m) root (filename m) (if checksum then Some (md5 m) else None) w))"

definition not_found_message :: string where
  "not_found_message = ''Dataset not found or corrupted. You can use download=True to download it''"

definition assert_split :: "string \<Rightarrow> py_error + unit" where
  "assert_split split = (if split \<in> set (map fst metadata) then Inr () else Inl AssertionError)"

definition init ::
  "'g downloader \<Rightarrow> 'g world \<Rightarrow> string \<Rightarrow> string \<Rightarrow> (raw_sample \<Rightarrow> py_error + 's) option \<Rightarrow>
   bool \<Rightarrow> bool \<Rightarrow> (py_error + 's ETCI2021) \<times> 'g world" where
  "init dl w root split transforms dl_flag checksum =
     (case assert_split split of
        Inl e \<Rightarrow> (Inl e, w)
      | Inr _ \<Rightarrow>
          (case (if dl_flag then download dl w root split checksum else (Inr (), w)) of
             (Inl e, w') \<Rightarrow> (Inl e, w')
           | (Inr _, w') \<Rightarrow>
               (case check_integrity w' root split of
                  Inl e \<Rightarrow> (Inl e, w')
                | Inr ok \<Rightarrow>
                    if \<not> ok then (Inl (RuntimeError not_found_message), w')
                    else
                      (case load_files (glob_glob w') root split of
                         Inl e \<Rightarrow> (Inl e, w')
                       | Inr files \<Rightarrow>
                           (Inr \<lparr>ds_root = root, ds_split = split, ds_transforms = transforms,
                                 ds_checksum = checksum, ds_files = files\<rparr>, w')))))"

subsection \<open>\<open>ETCI2021DataModule\<close>: preprocessing\<close>

text \<open>
  Single-precision arithmetic is torch's. It enters as a parameter: the conversion of a
  long to a float, subtraction, division, the float of a decimal literal, and the test
  for zero.
\<close>

record 'f float_ops =
  of_long :: "long \<Rightarrow> 'f"
  f_sub :: "'f \<Rightarrow> 'f \<Rightarrow> 'f"
  f_div :: "'f \<Rightarrow> 'f \<Rightarrow> 'f"
  f_lit :: "string \<Rightarrow> 'f"
  f_is_zero :: "'f \<Rightarrow> bool"

definition band_means :: "'f float_ops \<Rightarrow> 'f list" where
  "band_means ops = map (f_lit ops)
     [''0.52253931'', ''0.52253931'', ''0.52253931'',
      ''0.61221701'', ''0.61221701'', ''0.61221701'', ''0'']"

definition band_stds :: "'f float_ops \<Rightarrow> 'f list" where
  "band_stds ops = map (f_lit ops)
     [''0.35221376'', ''0.35221376'', ''0.35221376'',
      ''0.37364622'', ''0.37364622'', ''0.37364622'', ''1'']"

text \<open>
  torchvision's \<open>Normalize(mean, std)\<close> applied to a float tensor of shape
  \<open>C \<times> H \<times> W\<close>: it raises \<open>ValueError\<close> if a standard deviation is zero, needs one mean
  and one standard deviation per channel, and computes \<open>(x - mean) / std\<close> channel by
  channel.
\<close>

definition Normalize ::
  "'f float_ops \<Rightarrow> 'f list \<Rightarrow> 'f list \<Rightarrow> 'f tensor3 \<Rightarrow> py_error + 'f tensor3" where
  "Normalize ops mean std t =
     (if list_ex (f_is_zero ops) std then Inl ValueError
      else if fst (shape3 t) \<noteq> length mean \<or> fst (shape3 t) \<noteq> length std then
        Inl (RuntimeError ''The size of tensor a must match the size of tensor b'')
      else
        Inr \<lparr>shape3 = shape3 t,
             data3 = map (\<lambda>(ch, m, s). map (map (\<lambda>x. f_div ops (f_sub ops x m) s)) ch)
                       (zip (data3 t) (zip mean std))\<rparr>)"

definition norm :: "'f float_ops \<Rightarrow> 'f tensor3 \<Rightarrow> py_error + 'f tensor3" where
  "norm ops = Normalize ops (band_means ops) (band_stds ops)"

type_synonym 'f net_sample = "('f tensor3, long tensor2) sample"

text \<open>
  \<open>preprocess\<close>. Concatenating the byte image with the long water mask promotes the
  bytes to longs; \<open>.float()\<close> then converts every element.
\<close>

definition preprocess :: "'f float_ops \<Rightarrow> raw_sample \<Rightarrow> py_error + 'f net_sample" where
  "preprocess ops sample =
     (let image = sample_image sample
      in ebind (select0 (sample_mask sample) 0) (\<lambda>m0.
         let water_mask = unsqueeze0 m0
         in ebind (select0 (sample_mask sample) 1) (\<lambda>flood_mask.
            let flood_mask = map_tensor2 (\<lambda>v. if 0 < sint v then 1 else 0) flood_mask
            in ebind (cat0 (map_tensor3 ucast image) water_mask) (\<lambda>image.
               let image = map_tensor3 (of_long ops) image;
                   image = map_tensor3 (\<lambda>x. f_div ops x (f_lit ops ''255.0'')) image
               in ebind (norm ops image) (\<lambda>image.
                    Inr \<lparr>sample_image = image, sample_mask = flood_mask\<rparr>)))))"

text \<open>What \<open>preprocess\<close> does to one element of channel \<open>k\<close>.\<close>

definition scaled :: "'f float_ops \<Rightarrow> nat \<Rightarrow> long \<Rightarrow> 'f" where
  "scaled ops k x =
     f_div ops
       (f_sub ops (f_div ops (of_long ops x) (f_lit ops ''255.0'')) (band_means ops ! k))
       (band_stds ops ! k)"

subsection \<open>\<open>ETCI2021DataModule\<close>: the size of the training partition\<close>

text \<open>
  \<open>int(0.8 * size_train_val)\<close> is computed in double precision. The doubles that occur
  are non-negative multiples of \<open>2\<^sup>-\<^sup>5\<^sup>2\<close> and are represented by their numerator over
  \<open>2\<^sup>5\<^sup>2\<close>. Rounding keeps 53 significant bits, to nearest, ties to even.
\<close>

fun bit_length :: "nat \<Rightarrow> nat" where
  "bit_length n = (if n = 0 then 0 else Suc (bit_length (n div 2)))"

declare bit_length.simps [simp del]

definition round_half_even :: "nat \<Rightarrow> nat \<Rightarrow> nat" where
  "round_half_even e m =
     (let q = m div 2 ^ e; r = m mod 2 ^ e
      in (if 2 ^ e < 2 * r \<or> (2 * r = 2 ^ e \<and> odd q) then q + 1 else q) * 2 ^ e)"

definition round53 :: "nat \<Rightarrow> nat" where
  "round53 m = (if bit_length m \<le> 53 then m else round_half_even (bit_length m - 53) m)"

text \<open>The double nearest to 0.8 is \<open>3602879701896397 / 2\<^sup>5\<^sup>2\<close>.\<close>

definition point_eight :: nat where
  "point_eight = 3602879701896397"

text \<open>
  The conversion of the length to a double (an integer again, \<open>OverflowError\<close> beyond the
  range of doubles), the product with 0.8 and the truncation by \<open>int\<close>.
\<close>

definition float_of_int :: "nat \<Rightarrow> py_error + nat" where
  "float_of_int n = (let x = round53 n in if 2 ^ 1024 \<le> x then Inl OverflowError else Inr x)"

definition times_point_eight :: "nat \<Rightarrow> nat" where
  "times_point_eight x = round53 (point_eight * x)"

definition int_of_float :: "nat \<Rightarrow> int" where
  "int_of_float y = int (y div 2 ^ 52)"

definition size_train_of :: "nat \<Rightarrow> py_error + int" where
  "size_train_of size_train_val =
     ebind (float_of_int size_train_val) (\<lambda>x. Inr (int_of_float (times_point_eight x)))"

subsection \<open>\<open>ETCI2021DataModule\<close>: setup and the data loaders\<close>

text \<open>
  torch's random number generation is a parameter: \<open>Generator().manual_seed(seed)\<close>
  gives the state of a new generator seeded with \<open>seed\<close> (or raises), and
  \<open>randperm(n, generator=g)\<close> draws a list of indices from the state \<open>g\<close>.
\<close>

record 'g torch_random =
  manual_seed :: "int \<Rightarrow> py_error + 'g"
  randperm :: "nat \<Rightarrow> 'g \<Rightarrow> nat list"

record 's subset =
  sub_dataset :: "'s ETCI2021"
  sub_indices :: "nat list"

text \<open>A Python slice \<open>xs[lo:hi]\<close> and \<open>itertools.accumulate\<close>.\<close>

definition slice_bound :: "int \<Rightarrow> int \<Rightarrow> nat" where
  "slice_bound n i = nat (if i < 0 then max (i + n) 0 else min i n)"

definition py_slice :: "'a list \<Rightarrow> int \<Rightarrow> int \<Rightarrow> 'a list" where
  "py_slice xs lo hi =
     (let n = int (length xs); a = slice_bound n lo; b = slice_bound n hi
      in take (b - a) (drop a xs))"

fun accumulate_from :: "int \<Rightarrow> int list \<Rightarrow> int list" where
  "accumulate_from acc [] = []"
| "accumulate_from acc (x # xs) = (acc + x) # accumulate_from (acc + x) xs"

definition accumulate :: "int list \<Rightarrow> int list" where
  "accumulate xs = accumulate_from 0 xs"

text \<open>\<open>torch.utils.data.random_split\<close>.\<close>

definition random_split ::
  "'g torch_random \<Rightarrow> 's ETCI2021 \<Rightarrow> int list \<Rightarrow> 'g \<Rightarrow> py_error + 's subset list" where
  "random_split rng dataset lengths generator =
     (if sum_list lengths \<noteq> int (len dataset) then Inl ValueError
      else
        (let indices = randperm rng (nat (sum_list lengths)) generator
         in Inr (map (\<lambda>(offset, length).
                   \<lparr>sub_dataset = dataset,
                    sub_indices = py_slice indices (offset - length) offset\<rparr>)
                 (zip (accumulate lengths) lengths))))"

record 's ETCI2021DataModule =
  root_dir :: string
  seed :: int
  batch_size :: int
  num_workers :: int
  train_dataset :: "'s subset option"
  val_dataset :: "'s subset option"
  test_dataset :: "'s ETCI2021 option"

definition datamodule_init :: "string \<Rightarrow> int \<Rightarrow> int \<Rightarrow> int \<Rightarrow> 's ETCI2021DataModule" where
  "datamodule_init root_dir' seed' batch_size' num_workers' =
     \<lparr>root_dir = root_dir', seed = seed', batch_size = batch_size',
      num_workers = num_workers', train_dataset = None, val_dataset = None,
      test_dataset = None\<rparr>"

text \<open>
  \<open>setup\<close>. Both datasets are built with the default \<open>download=False\<close> and
  \<open>checksum=False\<close>. If a step raises, the exception is the result.
\<close>

definition datamodule_setup ::
  "'g downloader \<Rightarrow> 'g torch_random \<Rightarrow> 'f float_ops \<Rightarrow> 'g world \<Rightarrow>
   'f net_sample ETCI2021DataModule \<Rightarrow>
   (py_error + 'f net_sample ETCI2021DataModule) \<times> 'g world" where
  "datamodule_setup dl rng ops w self =
     (case init dl w (root_dir self) ''train'' (Some (preprocess ops)) False False of
        (Inl e, w1) \<Rightarrow> (Inl e, w1)
      | (Inr train_val_dataset, w1) \<Rightarrow>
     (case init dl w1 (root_dir self) ''val'' (Some (preprocess ops)) False False of
        (Inl e, w2) \<Rightarrow> (Inl e, w2)
      | (Inr test_ds, w2) \<Rightarrow>
     (let self = self\<lparr>test_dataset := Some test_ds\<rparr>;
          size_train_val = len train_val_dataset
      in case size_train_of size_train_val of
           Inl e \<Rightarrow> (Inl e, w2)
         | Inr size_train \<Rightarrow>
     (let size_val = int size_train_val - size_train
      in case manual_seed rng (seed self) of
           Inl e \<Rightarrow> (Inl e, w2)
         | Inr generator \<Rightarrow>
     (case random_split rng train_val_dataset [size_train, size_val] generator of
        Inl e \<Rightarrow> (Inl e, w2)
      | Inr [a, b] \<Rightarrow> (Inr (self\<lparr>train_dataset := Some a, val_dataset := Some b\<rparr>), w2)
      | Inr _ \<Rightarrow> (Inl ValueError, w2))))))"

text \<open>
  torch's \<open>DataLoader\<close>, as far as its constructor goes: it raises \<open>ValueError\<close> for a
  negative number of workers and for a batch size that is not positive, and otherwise
  holds the dataset it wraps.
\<close>

record 'd DataLoader =
  dl_dataset :: 'd
  dl_batch_size :: int
  dl_num_workers :: int
  dl_shuffle :: bool

definition DataLoader_new :: "'d \<Rightarrow> int \<Rightarrow> int \<Rightarrow> bool \<Rightarrow> py_error + 'd DataLoader" where
  "DataLoader_new dataset batch_size' num_workers' shuffle =
     (if num_workers' < 0 then Inl ValueError
      else if batch_size' \<le> 0 then Inl ValueError
      else Inr \<lparr>dl_dataset = dataset, dl_batch_size = batch_size',
                dl_num_workers = num_workers', dl_shuffle = shuffle\<rparr>)"

text \<open>
  \<open>test_dataloader\<close>; reading \<open>self.test_dataset\<close> before \<open>setup\<close> has set it raises
  \<open>AttributeError\<close>.
\<close>

definition test_dataloader :: "'s ETCI2021DataModule \<Rightarrow> py_error + 's ETCI2021 DataLoader" where
  "test_dataloader self =
     (case test_dataset self of
        None \<Rightarrow> Inl AttributeError
      | Some d \<Rightarrow> DataLoader_new d (batch_size self) (num_workers self) False)"

subsection \<open>Example inputs\<close>

text \<open>
  A small tree: a train folder of two tiles (and an empty one), and a folder of the
  unlabelled test split with one tile.
\<close>

definition demo_glob :: "string \<Rightarrow> string list" where
  "demo_glob p =
     (if p = ''data/train/*'' then [''data/train/b'', ''data/train/a'']
      else if p = ''data/train/a/tiles/vv/*.png'' then
        [''data/train/a/tiles/vv/2.png'', ''data/train/a/tiles/vv/1.png'']
      else if p = ''data/train/a/tiles/vh/*.png'' then
        [''data/train/a/tiles/vh/1.png'', ''data/train/a/tiles/vh/2.png'']
      else if p = ''data/train/a/tiles/flood_label/*.png'' then
        [''data/train/a/tiles/flood_label/2.png'', ''data/train/a/tiles/flood_label/1.png'']
      else if p = ''data/train/a/tiles/water_body_label/*.png'' then
        [''data/train/a/tiles/water_body_label/1.png'',
         ''data/train/a/tiles/water_body_label/2.png'']
      else if p = ''data/test_internal/*'' then [''data/test_internal/c'']
      else if p = ''data/test_internal/c/tiles/vv/*.png'' then
        [''data/test_internal/c/tiles/vv/1.png'']
      else if p = ''data/test_internal/c/tiles/vh/*.png'' then
        [''data/test_internal/c/tiles/vh/1.png'']
      else if p = ''data/test_internal/c/tiles/water_body_label/*.png'' then
        [''data/test_internal/c/tiles/water_body_label/1.png'']
      else [])"

text \<open>A tree whose \<open>vh\<close> directory lacks the second tile.\<close>

definition uneven_glob :: "string \<Rightarrow> string list" where
  "uneven_glob p =
     (if p = ''data/train/*'' then [''data/train/a'']
      else if p = ''data/train/a/tiles/vv/*.png'' then
        [''data/train/a/tiles/vv/1.png'', ''data/train/a/tiles/vv/2.png'']
      else if p = ''data/train/a/tiles/vh/*.png'' then
        [''data/train/a/tiles/vh/1.png'']
      else if p = ''data/train/a/tiles/flood_label/*.png'' then
        [''data/train/a/tiles/flood_label/1.png'', ''data/train/a/tiles/flood_label/2.png'']
      else if p = ''data/train/a/tiles/water_body_label/*.png'' then
        [''data/train/a/tiles/water_body_label/1.png'',
         ''data/train/a/tiles/water_body_label/2.png'']
      else [])"

text \<open>A world with the train directory only, and a downloader that always fails.\<close>

definition demo_world :: "nat world" where
  "demo_world =
     \<lparr>path_exists = (\<lambda>p. p = ''data/train''), glob_glob = demo_glob, default_generator = 0\<rparr>"

definition offline :: "nat downloader" where
  "offline u r f c w = (Inl (OSError ''network unreachable''), w)"

text \<open>
  A decoder for the example tree: every listed file opens, the images are two pixels
  wide and one pixel high.
\<close>

definition demo_pil :: "string pil" where
  "demo_pil =
     \<lparr>Image_open = (\<lambda>p. if p \<in> set (concat (map demo_glob
                                  [''data/train/a/tiles/vv/*.png'', ''data/train/a/tiles/vh/*.png'',
                                   ''data/train/a/tiles/flood_label/*.png'',
                                   ''data/train/a/tiles/water_body_label/*.png'',
                                   ''data/test_internal/c/tiles/vv/*.png'',
                                   ''data/test_internal/c/tiles/vh/*.png'',
                                   ''data/test_internal/c/tiles/water_body_label/*.png'']))
                         then Inr p else Inl (OSError p)),
      convert_RGB = (\<lambda>img. \<lparr>width = 2, height = 1,
                             pixel = (\<lambda>x y. if img = ''data/train/a/tiles/vv/1.png''
                                            then (10 + of_nat x, 20, 30)
                                            else (40 + of_nat x, 50, 60))\<rparr>),
      convert_L = (\<lambda>img. \<lparr>width = 2, height = 1,
                           pixel = (\<lambda>x y. if img = ''data/train/a/tiles/flood_label/1.png''
                                          then (if x = 0 then 255 else 0)
                                          else (if x = 0 then 0 else 7))\<rparr>)\<rparr>"

definition demo_dataset :: "raw_sample ETCI2021" where
  "demo_dataset =
     \<lparr>ds_root = ''data'', ds_split = ''train'', ds_transforms = None, ds_checksum = False,
      ds_files =
        [[(''vv'', ''data/train/a/tiles/vv/1.png''), (''vh'', ''data/train/a/tiles/vh/1.png''),
          (''flood_mask'', ''data/train/a/tiles/flood_label/1.png''),
          (''water_mask'', ''data/train/a/tiles/water_body_label/1.png'')],
         [(''vv'', ''data/train/a/tiles/vv/2.png''), (''vh'', ''data/train/a/tiles/vh/2.png''),
          (''flood_mask'', ''data/train/a/tiles/flood_label/2.png''),
          (''water_mask'', ''data/train/a/tiles/water_body_label/2.png'')]]\<rparr>"

text \<open>The datasets the constructor builds on the example tree.\<close>

definition demo_test_dataset :: "raw_sample ETCI2021" where
  "demo_test_dataset =
     \<lparr>ds_root = ''data'', ds_split = ''test'', ds_transforms = None, ds_checksum = False,
      ds_files =
        [[(''vv'', ''data/test_internal/c/tiles/vv/1.png''),
          (''vh'', ''data/test_internal/c/tiles/vh/1.png''),
          (''water_mask'', ''data/test_internal/c/tiles/water_body_label/1.png'')]]\<rparr>"

text \<open>
  Float arithmetic that only records what is computed: the floats are the expressions
  themselves.
\<close>

datatype fexpr = Lit string | OfLong long | Sub fexpr fexpr | Div fexpr fexpr

definition symbolic :: "fexpr float_ops" where
  "symbolic = \<lparr>of_long = OfLong, f_sub = Sub, f_div = Div, f_lit = Lit,
               f_is_zero = (\<lambda>e. e = Lit ''0'' \<or> e = Lit ''0.0'')\<rparr>"

text \<open>
  A sample as \<open>__getitem__\<close> builds it for the train split, and one as it builds it for
  the test split.
\<close>

definition demo_sample :: raw_sample where
  "demo_sample =
     \<lparr>sample_image =
        \<lparr>shape3 = (6, 1, 2),
         data3 = [[[10, 11]], [[20, 20]], [[30, 30]], [[40, 41]], [[50, 50]], [[60, 60]]]\<rparr>,
      sample_mask = \<lparr>shape3 = (2, 1, 2), data3 = [[[0, 1]], [[1, 0]]]\<rparr>\<rparr>"

definition demo_test_sample :: raw_sample where
  "demo_test_sample =
     \<lparr>sample_image =
        \<lparr>shape3 = (6, 1, 2),
         data3 = [[[40, 41]], [[50, 50]], [[60, 60]], [[40, 41]], [[50, 50]], [[60, 60]]]\<rparr>,
      sample_mask = \<lparr>shape3 = (1, 1, 2), data3 = [[[0, 1]]]\<rparr>\<rparr>"

text \<open>
  A decoder whose masks are three pixels wide while its images are two pixels wide, and
  the sample \<open>__getitem__\<close> builds from it.
\<close>

definition wide_mask_pil :: "string pil" where
  "wide_mask_pil =
     demo_pil\<lparr>convert_L :=
       (\<lambda>img. \<lparr>width = 3, height = 1, pixel = (\<lambda>x y. if x = 0 then 0 else 255)\<rparr>)\<rparr>"

definition uneven_sample :: raw_sample where
  "uneven_sample =
     \<lparr>sample_image =
        \<lparr>shape3 = (6, 1, 2),
         data3 = [[[10, 11]], [[20, 20]], [[30, 30]], [[40, 41]], [[50, 50]], [[60, 60]]]\<rparr>,
      sample_mask = \<lparr>shape3 = (2, 1, 3), data3 = [[[0, 1, 1]], [[0, 1, 1]]]\<rparr>\<rparr>"

text \<open>
  A tree with five tiles in the train split and one in the val split (whose directory is
  \<open>test\<close>), listed out of order; and a stand-in for torch's generator whose state is a
  number and whose permutation is a rotation by it.
\<close>

definition tiles :: "string \<Rightarrow> string list \<Rightarrow> string list" where
  "tiles dir names = map (\<lambda>name. dir @ ''/'' @ name @ ''.png'') names"

definition five_glob :: "string \<Rightarrow> string list" where
  "five_glob p =
     (if p = ''data/train/*'' then [''data/train/a'']
      else if p = ''data/train/a/tiles/vv/*.png'' then
        tiles ''data/train/a/tiles/vv'' [''5'', ''3'', ''1'', ''2'', ''4'']
      else if p = ''data/train/a/tiles/vh/*.png'' then
        tiles ''data/train/a/tiles/vh'' [''1'', ''2'', ''3'', ''4'', ''5'']
      else if p = ''data/train/a/tiles/flood_label/*.png'' then
        tiles ''data/train/a/tiles/flood_label'' [''2'', ''1'', ''4'', ''3'', ''5'']
      else if p = ''data/train/a/tiles/water_body_label/*.png'' then
        tiles ''data/train/a/tiles/water_body_label'' [''1'', ''2'', ''3'', ''4'', ''5'']
      else if p = ''data/test/*'' then [''data/test/b'']
      else if p = ''data/test/b/tiles/vv/*.png'' then tiles ''data/test/b/tiles/vv'' [''1'']
      else if p = ''data/test/b/tiles/vh/*.png'' then tiles ''data/test/b/tiles/vh'' [''1'']
      else if p = ''data/test/b/tiles/flood_label/*.png'' then
        tiles ''data/test/b/tiles/flood_label'' [''1'']
      else if p = ''data/test/b/tiles/water_body_label/*.png'' then
        tiles ''data/test/b/tiles/water_body_label'' [''1'']
      else [])"

definition five_world :: "nat world" where
  "five_world =
     \<lparr>path_exists = (\<lambda>p. p = ''data/train'' \<or> p = ''data/test''),
      glob_glob = five_glob, default_generator = 0\<rparr>"

definition other_world :: "nat world" where
  "other_world =
     \<lparr>path_exists = (\<lambda>p. p = ''data/train'' \<or> p = ''data/test''),
      glob_glob = (\<lambda>p. rev (five_glob p)), default_generator = 7\<rparr>"

definition demo_rng :: "nat torch_random" where
  "demo_rng = \<lparr>manual_seed = (\<lambda>s. Inr (nat \<bar>s\<bar>)), randperm = (\<lambda>k g. rotate g [0..<k])\<rparr>"

definition demo_module :: "fexpr net_sample ETCI2021DataModule" where
  "demo_module = datamodule_init ''data'' 1 64 0"

section \<open>Properties of the indexer\<close>

lemma foldl_append_single: "foldl (\<lambda>acc t. acc @ [f t]) acc ts = acc @ map f ts"
  by (induction ts arbitrary: acc) simp_all

lemma foldl_append_many:
  assumes "\<And>acc x. step acc x = acc @ g x"
  shows "foldl step acc xs = acc @ concat (map g xs)"
  by (induction xs arbitrary: acc) (simp_all add: assms)

lemma folder_body_append:
  "folder_body gl split files folder = files @ sorted_zip_records gl split folder"
  by (simp add: folder_body_def sorted_zip_records_def Let_def foldl_append_single)

lemma metadata_keys: "set (map fst metadata) = {''train'', ''val'', ''test''}"
  by (auto simp: metadata_def)

lemma metadata_lookup_valid:
  assumes "split \<in> set (map fst metadata)"
  obtains m where "metadata_lookup split = Inr m" and "map_of metadata split = Some m"
proof -
  from assms obtain m where "map_of metadata split = Some m"
    by (metis map_of_eq_None_iff not_Some_eq set_map)
  then show ?thesis
    using that by (simp add: metadata_lookup_def)
qed

lemma load_files_concat:
  assumes "metadata_lookup split = Inr m"
  shows "load_files gl root split =
         Inr (concat (map (sorted_zip_records gl split) (split_folders gl root (directory m))))"
proof -
  have "foldl (folder_body gl split) [] fs = [] @ concat (map (sorted_zip_records gl split) fs)"
    for fs
    by (rule foldl_append_many) (rule folder_body_append)
  then show ?thesis
    using assms by (simp add: load_files_def split_folders_def Let_def)
qed

lemma sort_permuted: "mset xs = mset (ys :: string list) \<Longrightarrow> sort xs = sort ys"
  by (rule properties_for_sort) simp_all

lemma load_files_permuted:
  assumes "\<And>p. mset (gl p) = mset (gl' p)"
  shows "load_files gl root split = load_files gl' root split"
proof -
  have s: "sort (gl p) = sort (gl' p)" for p
    by (rule sort_permuted) (rule assms)
  have "folder_body gl split = folder_body gl' split"
    by (intro ext) (simp add: folder_body_def Let_def s)
  then show ?thesis
    by (cases "metadata_lookup split") (simp_all add: load_files_def Let_def s)
qed

text \<open>
  C1: for every root and every valid split, \<open>_load_files\<close> returns the concatenation, over
  the split's folders in sorted order, of the index-by-index zip of the sorted glob results
  of the channel directories; the list depends on the glob results only through their
  sorted order, so two file systems listing the same paths in different orders give the
  same list.
\<close>

theorem load_files_sorted_zip:
  assumes "split \<in> set (map fst metadata)"
  shows "(\<exists>m. map_of metadata split = Some m \<and>
            load_files gl root split =
              Inr (concat (map (sorted_zip_records gl split)
                     (map (\<lambda>folder. os_path_join folder [''tiles''])
                        (sort (gl (os_path_join root [directory m, ''*''])))))))
         \<and> ((\<forall>p. mset (gl p) = mset (gl' p)) \<longrightarrow>
              load_files gl root split = load_files gl' root split)"
proof -
  from assms obtain m where m: "metadata_lookup split = Inr m" "map_of metadata split = Some m"
    by (rule metadata_lookup_valid)
  have "load_files gl root split =
          Inr (concat (map (sorted_zip_records gl split)
                 (map (\<lambda>folder. os_path_join folder [''tiles''])
                    (sort (gl (os_path_join root [directory m, ''*'']))))))"
    using load_files_concat [OF m(1), of gl root] by (simp add: split_folders_def)
  moreover have "load_files gl root split = load_files gl' root split"
    if "\<forall>p. mset (gl p) = mset (gl' p)"
    using that by (intro load_files_permuted) simp
  ultimately show ?thesis
    using m(2) by blast
qed

theorem load_files_sorted_zip_witness:
  "''train'' \<in> set (map fst metadata) \<and>
   load_files demo_glob ''data'' ''train'' = Inr
     [[(''vv'', ''data/train/a/tiles/vv/1.png''), (''vh'', ''data/train/a/tiles/vh/1.png''),
       (''flood_mask'', ''data/train/a/tiles/flood_label/1.png''),
       (''water_mask'', ''data/train/a/tiles/water_body_label/1.png'')],
      [(''vv'', ''data/train/a/tiles/vv/2.png''), (''vh'', ''data/train/a/tiles/vh/2.png''),
       (''flood_mask'', ''data/train/a/tiles/flood_label/2.png''),
       (''water_mask'', ''data/train/a/tiles/water_body_label/2.png'')]] \<and>
   load_files demo_glob ''data'' ''train'' =
     load_files (\<lambda>p. rev (demo_glob p)) ''data'' ''train''"
proof -
  have v: "''train'' \<in> set (map fst metadata)"
    by (simp add: metadata_def)
  have p: "\<forall>p. mset (demo_glob p) = mset (rev (demo_glob p))"
    by simp
  have e: "load_files demo_glob ''data'' ''train'' = Inr
     [[(''vv'', ''data/train/a/tiles/vv/1.png''), (''vh'', ''data/train/a/tiles/vh/1.png''),
       (''flood_mask'', ''data/train/a/tiles/flood_label/1.png''),
       (''water_mask'', ''data/train/a/tiles/water_body_label/1.png'')],
      [(''vv'', ''data/train/a/tiles/vv/2.png''), (''vh'', ''data/train/a/tiles/vh/2.png''),
       (''flood_mask'', ''data/train/a/tiles/flood_label/2.png''),
       (''water_mask'', ''data/train/a/tiles/water_body_label/2.png'')]]"
    by code_simp
  from load_files_sorted_zip [OF v, of demo_glob "''data''" "\<lambda>p. rev (demo_glob p)"] p
  have "load_files demo_glob ''data'' ''train'' =
        load_files (\<lambda>p. rev (demo_glob p)) ''data'' ''train''"
    by blast
  with v e show ?thesis by simp
qed

lemma dict4_get:
  "dict_get (dict4 (a, b, c, d)) ''vv'' = Inr a"
  "dict_get (dict4 (a, b, c, d)) ''vh'' = Inr b"
  "dict_get (dict4 (a, b, c, d)) ''flood_mask'' = Inr c"
  "dict_get (dict4 (a, b, c, d)) ''water_mask'' = Inr d"
  by (simp_all add: dict4_def dict_get_def)

lemma dict3_get:
  "dict_get (dict3 (a, b, d)) ''vv'' = Inr a"
  "dict_get (dict3 (a, b, d)) ''vh'' = Inr b"
  "dict_get (dict3 (a, b, d)) ''water_mask'' = Inr d"
  "dict_get (dict3 (a, b, d)) ''flood_mask'' = Inl (KeyError ''flood_mask'')"
  by (simp_all add: dict3_def dict_get_def)


lemma zip4_columns:
  assumes "length ws = length xs" "length xs = length ys" "length ys = length zs"
  shows "map (\<lambda>t. dict_get (dict4 t) ''vv'') (zip4 ws xs ys zs) = map Inr ws
    \<and> map (\<lambda>t. dict_get (dict4 t) ''vh'') (zip4 ws xs ys zs) = map Inr xs
    \<and> map (\<lambda>t. dict_get (dict4 t) ''flood_mask'') (zip4 ws xs ys zs) = map Inr ys
    \<and> map (\<lambda>t. dict_get (dict4 t) ''water_mask'') (zip4 ws xs ys zs) = map Inr zs"
  using assms
  by (induction ws xs ys zs rule: list_induct4) (simp_all add: zip4_def dict4_get)

lemma zip3_columns:
  assumes "length ws = length xs" "length xs = length zs"
  shows "map (\<lambda>t. dict_get (dict3 t) ''vv'') (zip3 ws xs zs) = map Inr ws
    \<and> map (\<lambda>t. dict_get (dict3 t) ''vh'') (zip3 ws xs zs) = map Inr xs
    \<and> map (\<lambda>t. dict_get (dict3 t) ''water_mask'') (zip3 ws xs zs) = map Inr zs"
  using assms
  by (induction ws xs zs rule: list_induct3) (simp_all add: zip3_def dict3_get)

lemma length_sorted_zip_records:
  "length (sorted_zip_records gl split folder) =
     (if split \<noteq> ''test'' then
        Min {length (channel_files gl folder ''vv''), length (channel_files gl folder ''vh''),
             length (channel_files gl folder ''flood_label''),
             length (channel_files gl folder ''water_body_label'')}
      else
        Min {length (channel_files gl folder ''vv''), length (channel_files gl folder ''vh''),
             length (channel_files gl folder ''water_body_label'')})"
  by (simp add: sorted_zip_records_def zip4_def zip3_def channel_files_def)

lemma sorted_zip_records_columns:
  assumes "length (channel_files gl folder ''vv'') = N"
    and "length (channel_files gl folder ''vh'') = N"
    and "length (channel_files gl folder ''water_body_label'') = N"
    and "split \<noteq> ''test'' \<longrightarrow> length (channel_files gl folder ''flood_label'') = N"
  shows "map (\<lambda>r. dict_get r ''vv'') (sorted_zip_records gl split folder) =
           map Inr (sort (channel_files gl folder ''vv''))"
    and "map (\<lambda>r. dict_get r ''vh'') (sorted_zip_records gl split folder) =
           map Inr (sort (channel_files gl folder ''vh''))"
    and "map (\<lambda>r. dict_get r ''water_mask'') (sorted_zip_records gl split folder) =
           map Inr (sort (channel_files gl folder ''water_body_label''))"
    and "split \<noteq> ''test'' \<Longrightarrow>
         map (\<lambda>r. dict_get r ''flood_mask'') (sorted_zip_records gl split folder) =
           map Inr (sort (channel_files gl folder ''flood_label''))"
proof -
  let ?vv = "sort (gl (os_path_join folder [''vv'', ''*.png'']))"
  let ?vh = "sort (gl (os_path_join folder [''vh'', ''*.png'']))"
  let ?fl = "sort (gl (os_path_join folder [''flood_label'', ''*.png'']))"
  let ?wa = "sort (gl (os_path_join folder [''water_body_label'', ''*.png'']))"
  have l3: "length ?vv = length ?vh" "length ?vh = length ?wa"
    using assms by (simp_all add: channel_files_def)
  have l4: "length ?vv = length ?vh" "length ?vh = length ?fl" "length ?fl = length ?wa"
    if "split \<noteq> ''test''"
    using assms that by (simp_all add: channel_files_def)
  note c3 = zip3_columns [OF l3]
  show "map (\<lambda>r. dict_get r ''vv'') (sorted_zip_records gl split folder) =
           map Inr (sort (channel_files gl folder ''vv''))"
    using c3 zip4_columns [OF l4]
    by (simp add: sorted_zip_records_def channel_files_def comp_def)
  show "map (\<lambda>r. dict_get r ''vh'') (sorted_zip_records gl split folder) =
           map Inr (sort (channel_files gl folder ''vh''))"
    using c3 zip4_columns [OF l4]
    by (simp add: sorted_zip_records_def channel_files_def comp_def)
  show "map (\<lambda>r. dict_get r ''water_mask'') (sorted_zip_records gl split folder) =
           map Inr (sort (channel_files gl folder ''water_body_label''))"
    using c3 zip4_columns [OF l4]
    by (simp add: sorted_zip_records_def channel_files_def comp_def)
  show "map (\<lambda>r. dict_get r ''flood_mask'') (sorted_zip_records gl split folder) =
           map Inr (sort (channel_files gl folder ''flood_label''))"
    if "split \<noteq> ''test''"
    using that zip4_columns [OF l4]
    by (simp add: sorted_zip_records_def channel_files_def comp_def)
qed

lemma mset_map_sort: "mset (map f (sort (xs :: string list))) = mset (map f xs)"
  by (metis mset_map mset_sort)

lemma sorted_zip_records_nth:
  assumes "i < length (sorted_zip_records gl split folder)"
  shows "sorted_zip_records gl split folder ! i =
     (if split \<noteq> ''test'' then
        dict4 (sort (channel_files gl folder ''vv'') ! i,
               sort (channel_files gl folder ''vh'') ! i,
               sort (channel_files gl folder ''flood_label'') ! i,
               sort (channel_files gl folder ''water_body_label'') ! i)
      else
        dict3 (sort (channel_files gl folder ''vv'') ! i,
               sort (channel_files gl folder ''vh'') ! i,
               sort (channel_files gl folder ''water_body_label'') ! i))"
  using assms
  by (simp add: sorted_zip_records_def channel_files_def zip4_def zip3_def split: if_splits)

text \<open>
  C2 (as amended): the code never compares the counts of the channel directories. One pass
  of the loop body appends as many records as the shortest of the folder's sorted channel
  listings has entries, and the tuples are matched by rank: record \<open>i\<close> of the folder
  holds the \<open>i\<close>-th path, in sorted order, of each channel listing (tile names are not
  compared). When the channel directories of the folder hold \<open>N\<close> files each, the folder
  contributes exactly \<open>N\<close> such records; the paths under a key, read off the folder's
  records in order, are the directory's sorted listing, so every listed file of every
  channel is the entry of exactly one record.
\<close>

theorem folder_records_matched:
  "\<exists>recs. folder_body gl split files folder = files @ recs \<and>
     length recs =
       (if split \<noteq> ''test'' then
          Min {length (channel_files gl folder ''vv''), length (channel_files gl folder ''vh''),
               length (channel_files gl folder ''flood_label''),
               length (channel_files gl folder ''water_body_label'')}
        else
          Min {length (channel_files gl folder ''vv''), length (channel_files gl folder ''vh''),
               length (channel_files gl folder ''water_body_label'')}) \<and>
     (\<forall>i<length recs.
        recs ! i =
          (if split \<noteq> ''test'' then
             dict4 (sort (channel_files gl folder ''vv'') ! i,
                    sort (channel_files gl folder ''vh'') ! i,
                    sort (channel_files gl folder ''flood_label'') ! i,
                    sort (channel_files gl folder ''water_body_label'') ! i)
           else
             dict3 (sort (channel_files gl folder ''vv'') ! i,
                    sort (channel_files gl folder ''vh'') ! i,
                    sort (channel_files gl folder ''water_body_label'') ! i))) \<and>
     (length (channel_files gl folder ''vv'') = N \<and>
      length (channel_files gl folder ''vh'') = N \<and>
      length (channel_files gl folder ''water_body_label'') = N \<and>
      (split \<noteq> ''test'' \<longrightarrow> length (channel_files gl folder ''flood_label'') = N) \<longrightarrow>
        length recs = N \<and>
        map (\<lambda>r. dict_get r ''vv'') recs =
          map Inr (sort (channel_files gl folder ''vv'')) \<and>
        map (\<lambda>r. dict_get r ''vh'') recs =
          map Inr (sort (channel_files gl folder ''vh'')) \<and>
        map (\<lambda>r. dict_get r ''water_mask'') recs =
          map Inr (sort (channel_files gl folder ''water_body_label'')) \<and>
        (split \<noteq> ''test'' \<longrightarrow>
           map (\<lambda>r. dict_get r ''flood_mask'') recs =
             map Inr (sort (channel_files gl folder ''flood_label''))) \<and>
        mset (map (\<lambda>r. dict_get r ''vv'') recs) =
          mset (map Inr (channel_files gl folder ''vv'')) \<and>
        mset (map (\<lambda>r. dict_get r ''vh'') recs) =
          mset (map Inr (channel_files gl folder ''vh'')) \<and>
        mset (map (\<lambda>r. dict_get r ''water_mask'') recs) =
          mset (map Inr (channel_files gl folder ''water_body_label'')) \<and>
        (split \<noteq> ''test'' \<longrightarrow>
           mset (map (\<lambda>r. dict_get r ''flood_mask'') recs) =
             mset (map Inr (channel_files gl folder ''flood_label''))))"
proof (intro exI conjI impI allI)
  show "folder_body gl split files folder = files @ sorted_zip_records gl split folder"
    by (rule folder_body_append)
  show "length (sorted_zip_records gl split folder) =
       (if split \<noteq> ''test'' then
          Min {length (channel_files gl folder ''vv''), length (channel_files gl folder ''vh''),
               length (channel_files gl folder ''flood_label''),
               length (channel_files gl folder ''water_body_label'')}
        else
          Min {length (channel_files gl folder ''vv''), length (channel_files gl folder ''vh''),
               length (channel_files gl folder ''water_body_label'')})"
    by (rule length_sorted_zip_records)
  show "sorted_zip_records gl split folder ! i =
          (if split \<noteq> ''test'' then
             dict4 (sort (channel_files gl folder ''vv'') ! i,
                    sort (channel_files gl folder ''vh'') ! i,
                    sort (channel_files gl folder ''flood_label'') ! i,
                    sort (channel_files gl folder ''water_body_label'') ! i)
           else
             dict3 (sort (channel_files gl folder ''vv'') ! i,
                    sort (channel_files gl folder ''vh'') ! i,
                    sort (channel_files gl folder ''water_body_label'') ! i))"
    if "i < length (sorted_zip_records gl split folder)" for i
    using that by (rule sorted_zip_records_nth)
next
  assume a: "length (channel_files gl folder ''vv'') = N \<and>
      length (channel_files gl folder ''vh'') = N \<and>
      length (channel_files gl folder ''water_body_label'') = N \<and>
      (split \<noteq> ''test'' \<longrightarrow> length (channel_files gl folder ''flood_label'') = N)"
  then show "length (sorted_zip_records gl split folder) = N"
    by (simp add: length_sorted_zip_records)
  from a have h: "length (channel_files gl folder ''vv'') = N"
    "length (channel_files gl folder ''vh'') = N"
    "length (channel_files gl folder ''water_body_label'') = N"
    "split \<noteq> ''test'' \<longrightarrow> length (channel_files gl folder ''flood_label'') = N"
    by simp_all
  note cols = sorted_zip_records_columns [OF h]
  have m: "mset (map g recs) = mset (map Inr xs)" if "map g recs = map Inr (sort xs)"
    for g :: "file_rec \<Rightarrow> py_error + string" and recs and xs :: "string list"
    using that by (simp add: mset_map_sort)
  show "map (\<lambda>r. dict_get r ''vv'') (sorted_zip_records gl split folder) =
          map Inr (sort (channel_files gl folder ''vv''))"
    by (rule cols(1))
  show "map (\<lambda>r. dict_get r ''vh'') (sorted_zip_records gl split folder) =
          map Inr (sort (channel_files gl folder ''vh''))"
    by (rule cols(2))
  show "map (\<lambda>r. dict_get r ''water_mask'') (sorted_zip_records gl split folder) =
          map Inr (sort (channel_files gl folder ''water_body_label''))"
    by (rule cols(3))
  show "map (\<lambda>r. dict_get r ''flood_mask'') (sorted_zip_records gl split folder) =
          map Inr (sort (channel_files gl folder ''flood_label''))"
    if "split \<noteq> ''test''"
    by (rule cols(4) [OF that])
  show "mset (map (\<lambda>r. dict_get r ''vv'') (sorted_zip_records gl split folder)) =
          mset (map Inr (channel_files gl folder ''vv''))"
    by (rule m) (rule cols(1))
  show "mset (map (\<lambda>r. dict_get r ''vh'') (sorted_zip_records gl split folder)) =
          mset (map Inr (channel_files gl folder ''vh''))"
    by (rule m) (rule cols(2))
  show "mset (map (\<lambda>r. dict_get r ''water_mask'') (sorted_zip_records gl split folder)) =
          mset (map Inr (channel_files gl folder ''water_body_label''))"
    by (rule m) (rule cols(3))
  show "mset (map (\<lambda>r. dict_get r ''flood_mask'') (sorted_zip_records gl split folder)) =
          mset (map Inr (channel_files gl folder ''flood_label''))"
    if "split \<noteq> ''test''"
    by (rule m) (rule cols(4) [OF that])
qed

text \<open>
  C2 as stated fails: a folder whose \<open>vv\<close> directory lists two tiles and whose \<open>vh\<close>
  directory lists one is indexed without complaint, and the second \<open>vv\<close> tile is in no
  record.
\<close>

theorem load_files_drops_unmatched_counterexample:
  "uneven_glob ''data/train/a/tiles/vv/*.png'' =
     [''data/train/a/tiles/vv/1.png'', ''data/train/a/tiles/vv/2.png''] \<and>
   load_files uneven_glob ''data'' ''train'' = Inr
     [[(''vv'', ''data/train/a/tiles/vv/1.png''), (''vh'', ''data/train/a/tiles/vh/1.png''),
       (''flood_mask'', ''data/train/a/tiles/flood_label/1.png''),
       (''water_mask'', ''data/train/a/tiles/water_body_label/1.png'')]]"
  by code_simp

theorem folder_records_matched_witness:
  "folder_body demo_glob ''train'' [] ''data/train/a/tiles'' =
     [[(''vv'', ''data/train/a/tiles/vv/1.png''), (''vh'', ''data/train/a/tiles/vh/1.png''),
       (''flood_mask'', ''data/train/a/tiles/flood_label/1.png''),
       (''water_mask'', ''data/train/a/tiles/water_body_label/1.png'')],
      [(''vv'', ''data/train/a/tiles/vv/2.png''), (''vh'', ''data/train/a/tiles/vh/2.png''),
       (''flood_mask'', ''data/train/a/tiles/flood_label/2.png''),
       (''water_mask'', ''data/train/a/tiles/water_body_label/2.png'')]] \<and>
   length (channel_files demo_glob ''data/train/a/tiles'' ''vv'') = 2 \<and>
   length (channel_files demo_glob ''data/train/a/tiles'' ''vh'') = 2 \<and>
   length (channel_files demo_glob ''data/train/a/tiles'' ''water_body_label'') = 2 \<and>
   length (channel_files demo_glob ''data/train/a/tiles'' ''flood_label'') = 2 \<and>
   length (folder_body demo_glob ''train'' [] ''data/train/a/tiles'') = 2"
proof -
  have c: "length (channel_files demo_glob ''data/train/a/tiles'' ''vv'') = 2"
    "length (channel_files demo_glob ''data/train/a/tiles'' ''vh'') = 2"
    "length (channel_files demo_glob ''data/train/a/tiles'' ''water_body_label'') = 2"
    "length (channel_files demo_glob ''data/train/a/tiles'' ''flood_label'') = 2"
    by code_simp+
  have e: "folder_body demo_glob ''train'' [] ''data/train/a/tiles'' =
     [[(''vv'', ''data/train/a/tiles/vv/1.png''), (''vh'', ''data/train/a/tiles/vh/1.png''),
       (''flood_mask'', ''data/train/a/tiles/flood_label/1.png''),
       (''water_mask'', ''data/train/a/tiles/water_body_label/1.png'')],
      [(''vv'', ''data/train/a/tiles/vv/2.png''), (''vh'', ''data/train/a/tiles/vh/2.png''),
       (''flood_mask'', ''data/train/a/tiles/flood_label/2.png''),
       (''water_mask'', ''data/train/a/tiles/water_body_label/2.png'')]]"
    by code_simp
  from folder_records_matched [of demo_glob "''train''" "[]" "''data/train/a/tiles''" 2] c
  have "length (folder_body demo_glob ''train'' [] ''data/train/a/tiles'') = 2"
    by auto
  with c e show ?thesis by simp
qed

lemma assert_split_iff: "assert_split split = Inr () \<longleftrightarrow> split \<in> {''train'', ''val'', ''test''}"
  by (simp add: assert_split_def metadata_keys del: set_map)

lemma check_integrity_valid:
  assumes "map_of metadata split = Some m"
  shows "check_integrity w root split = Inr (path_exists w (os_path_join root [directory m]))"
  using assms by (simp add: check_integrity_def metadata_lookup_def ebind_def Let_def)

lemma map_of_metadata_valid:
  assumes "map_of metadata split = Some m"
  shows "split \<in> set (map fst metadata)"
  using assms by (metis map_of_eq_None_iff option.distinct(1) set_map)

lemma init_no_download:
  assumes "map_of metadata split = Some m"
  shows "init dl w root split transforms False checksum =
     (if path_exists w (os_path_join root [directory m]) then
        (Inr \<lparr>ds_root = root, ds_split = split, ds_transforms = transforms,
              ds_checksum = checksum,
              ds_files = concat (map (sorted_zip_records (glob_glob w) split)
                                   (split_folders (glob_glob w) root (directory m)))\<rparr>, w)
      else (Inl (RuntimeError not_found_message), w))"
proof -
  have l: "metadata_lookup split = Inr m"
    using assms by (simp add: metadata_lookup_def)
  have a: "assert_split split = Inr ()"
    using map_of_metadata_valid [OF assms] by (simp add: assert_split_def)
  show ?thesis
    by (simp add: init_def a check_integrity_valid [OF assms] load_files_concat [OF l])
qed

text \<open>
  C5: for every root and every valid split, construction with \<open>download=False\<close> raises
  \<open>RuntimeError\<close> (the "dataset not found" message) if and only if the split's directory
  \<open>root/metadata[split]["directory"]\<close> does not exist; when it exists, construction returns
  the dataset, whose files are those \<open>_load_files\<close> lists, and leaves the world as it was.
\<close>

theorem init_not_found_iff:
  assumes "map_of metadata split = Some m"
  shows "((\<exists>msg. fst (init dl w root split transforms False checksum) = Inl (RuntimeError msg))
            \<longleftrightarrow> \<not> path_exists w (os_path_join root [directory m]))
       \<and> (\<not> path_exists w (os_path_join root [directory m]) \<longrightarrow>
            init dl w root split transforms False checksum =
              (Inl (RuntimeError not_found_message), w))
       \<and> (path_exists w (os_path_join root [directory m]) \<longrightarrow>
            (\<exists>self. init dl w root split transforms False checksum = (Inr self, w) \<and>
                    load_files (glob_glob w) root split = Inr (ds_files self)))"
proof -
  have l: "metadata_lookup split = Inr m"
    using assms by (simp add: metadata_lookup_def)
  show ?thesis
    by (simp add: init_no_download [OF assms] load_files_concat [OF l])
qed

theorem init_not_found_iff_witness:
  "map_of metadata ''val'' = Some \<lparr>filename = ''val_with_ref_labels.zip'',
         md5 = ''fd18cecb318efc69f8319f90c3771bdf'',
         directory = ''test'',
         url = ''https://drive.google.com/file/d/19sriKPHCZLfJn_Jmk3Z_0b3VaCBVRVyn''\<rparr> \<and>
   \<not> path_exists demo_world ''data/test'' \<and>
   init offline demo_world ''data'' ''val'' (None :: (raw_sample \<Rightarrow> py_error + raw_sample) option)
     False False = (Inl (RuntimeError not_found_message), demo_world) \<and>
   path_exists demo_world ''data/train'' \<and>
   (\<exists>self. init offline demo_world ''data'' ''train''
              (None :: (raw_sample \<Rightarrow> py_error + raw_sample) option) False False =
            (Inr self, demo_world))"
proof -
  have v: "map_of metadata ''val'' = Some \<lparr>filename = ''val_with_ref_labels.zip'',
         md5 = ''fd18cecb318efc69f8319f90c3771bdf'',
         directory = ''test'',
         url = ''https://drive.google.com/file/d/19sriKPHCZLfJn_Jmk3Z_0b3VaCBVRVyn''\<rparr>"
    by (simp add: metadata_def)
  have t: "map_of metadata ''train'' = Some \<lparr>filename = ''train.zip'',
         md5 = ''1e95792fe0f6e3c9000abdeab2a8ab0f'',
         directory = ''train'',
         url = ''https://drive.google.com/file/d/14HqNW5uWLS92n7KrxKgDwUTsSEST6LCr''\<rparr>"
    by (simp add: metadata_def)
  have p: "\<not> path_exists demo_world ''data/test''" "path_exists demo_world ''data/train''"
    by (simp_all add: demo_world_def)
  have j: "os_path_join ''data'' [''test''] = ''data/test''"
    "os_path_join ''data'' [''train''] = ''data/train''"
    by (simp_all add: os_path_join_def join_step_def)
  from init_not_found_iff [OF v, of offline demo_world "''data''"
    "None :: (raw_sample \<Rightarrow> py_error + raw_sample) option" False] p j
  have 1: "init offline demo_world ''data'' ''val''
     (None :: (raw_sample \<Rightarrow> py_error + raw_sample) option)
     False False = (Inl (RuntimeError not_found_message), demo_world)"
    by simp
  from init_not_found_iff [OF t, of offline demo_world "''data''"
    "None :: (raw_sample \<Rightarrow> py_error + raw_sample) option" False] p j
  have 2: "\<exists>self. init offline demo_world ''data'' ''train''
              (None :: (raw_sample \<Rightarrow> py_error + raw_sample) option) False False =
            (Inr self, demo_world)"
    by auto
  from v p 1 2 show ?thesis by blast
qed

text \<open>
  C6: for a split outside \<open>{"train", "val", "test"}\<close> construction ends with
  \<open>AssertionError\<close> whatever the downloader, the \<open>download\<close> flag and the file system
  are, and the world is untouched: nothing was downloaded and nothing was looked up. For
  a split in that set the assertion passes, and construction without download does not
  end with \<open>AssertionError\<close>.
\<close>

theorem init_asserts_split:
  "(split \<notin> {''train'', ''val'', ''test''} \<longrightarrow>
      init dl w root split transforms dl_flag checksum = (Inl AssertionError, w))
   \<and> (split \<in> {''train'', ''val'', ''test''} \<longrightarrow>
        assert_split split = Inr () \<and>
        fst (init dl w root split transforms False checksum) \<noteq> Inl AssertionError)"
proof (intro conjI impI)
  assume "split \<notin> {''train'', ''val'', ''test''}"
  then have "assert_split split = Inl AssertionError"
    by (simp add: assert_split_def metadata_keys del: set_map)
  then show "init dl w root split transforms dl_flag checksum = (Inl AssertionError, w)"
    by (simp add: init_def)
next
  assume v: "split \<in> {''train'', ''val'', ''test''}"
  then show "assert_split split = Inr ()"
    by (simp add: assert_split_iff)
  from v have "split \<in> set (map fst metadata)"
    by (simp add: metadata_keys del: set_map)
  then obtain m where "map_of metadata split = Some m"
    by (rule metadata_lookup_valid)
  then show "fst (init dl w root split transforms False checksum) \<noteq> Inl AssertionError"
    by (simp add: init_no_download)
qed

theorem init_asserts_split_witness:
  "''validation'' \<notin> {''train'', ''val'', ''test''} \<and>
   init offline demo_world ''data'' ''validation''
     (None :: (raw_sample \<Rightarrow> py_error + raw_sample) option) True False =
     (Inl AssertionError, demo_world) \<and>
   ''test'' \<in> {''train'', ''val'', ''test''} \<and> assert_split ''test'' = Inr () \<and>
   fst (init offline demo_world ''data'' ''test''
     (None :: (raw_sample \<Rightarrow> py_error + raw_sample) option) False False) \<noteq> Inl AssertionError"
proof -
  have a: "''validation'' \<notin> {''train'', ''val'', ''test''}"
    "''test'' \<in> {''train'', ''val'', ''test''}"
    by simp_all
  from init_asserts_split [of "''validation''" offline demo_world "''data''"
    "None :: (raw_sample \<Rightarrow> py_error + raw_sample) option" True False] a
  have 1: "init offline demo_world ''data'' ''validation''
     (None :: (raw_sample \<Rightarrow> py_error + raw_sample) option) True False =
     (Inl AssertionError, demo_world)"
    by blast
  from init_asserts_split [of "''test''" offline demo_world "''data''"
    "None :: (raw_sample \<Rightarrow> py_error + raw_sample) option" True False] a
  have 2: "assert_split ''test'' = Inr () \<and>
   fst (init offline demo_world ''data'' ''test''
     (None :: (raw_sample \<Rightarrow> py_error + raw_sample) option) False False) \<noteq> Inl AssertionError"
    by blast
  from a 1 2 show ?thesis by blast
qed

lemma clamp_to_long: "(ucast (clamp 0 1 x) :: long) = (if x = 0 then 0 else 1)"
proof (cases "x = 0")
  case True
  then show ?thesis by (simp add: clamp_def)
next
  case False
  then have "1 \<le> x"
    by (simp add: word_le_nat_alt unat_gt_0 Suc_leI)
  then have "min x 1 = 1" by (simp add: min_def)
  moreover have "max x 0 = x" by (simp add: max_def)
  ultimately show ?thesis using False by (simp add: clamp_def)
qed

lemma os_path_join_single [simp]: "os_path_join path [] = path"
  by (simp add: os_path_join_def)

lemma load_target_open:
  assumes "Image_open lib path = Inr img"
  shows "load_target lib path =
     Inr \<lparr>shape2 = (height (convert_L lib img), width (convert_L lib img)),
          data2 = map (\<lambda>y. map (\<lambda>x. if pixel (convert_L lib img) x y = 0 then 0 else 1)
                                [0..<width (convert_L lib img)])
                      [0..<height (convert_L lib img)]\<rparr>"
  using assms
  by (simp add: load_target_def ebind_def Let_def np_array_L_def map_tensor2_def comp_def
      clamp_to_long)

lemma load_target_fails:
  assumes "Image_open lib path = Inl e"
  shows "load_target lib path = Inl e"
  using assms by (simp add: load_target_def ebind_def)

lemma load_target_cases:
  assumes "load_target lib path = Inr t"
  obtains img where "Image_open lib path = Inr img"
proof (cases "Image_open lib path")
  case (Inl e)
  with assms show ?thesis by (simp add: load_target_fails)
next
  case (Inr img)
  then show ?thesis by (rule that)
qed

text \<open>
  C8: whenever the mask file opens, \<open>_load_target\<close> returns a long tensor of the picture's
  height and width whose entry is 0 where the decoded grey value is 0 and 1 everywhere
  else (255 included); every entry of every tensor it returns is 0 or 1.
\<close>

theorem load_target_binary:
  "(Image_open lib path = Inr img \<longrightarrow>
      load_target lib path =
        Inr \<lparr>shape2 = (height (convert_L lib img), width (convert_L lib img)),
             data2 = map (\<lambda>y. map (\<lambda>x. if pixel (convert_L lib img) x y = 0 then 0 else 1)
                                   [0..<width (convert_L lib img)])
                         [0..<height (convert_L lib img)]\<rparr>)
   \<and> (load_target lib path = Inr t \<longrightarrow>
        valid2 t \<and> (\<forall>row \<in> set (data2 t). \<forall>v \<in> set row. v = 0 \<or> v = 1))"
proof (intro conjI impI)
  assume "Image_open lib path = Inr img"
  then show "load_target lib path =
        Inr \<lparr>shape2 = (height (convert_L lib img), width (convert_L lib img)),
             data2 = map (\<lambda>y. map (\<lambda>x. if pixel (convert_L lib img) x y = 0 then 0 else 1)
                                   [0..<width (convert_L lib img)])
                         [0..<height (convert_L lib img)]\<rparr>"
    by (rule load_target_open)
next
  assume t: "load_target lib path = Inr t"
  then obtain img' where "Image_open lib path = Inr img'"
    by (rule load_target_cases)
  from load_target_open [OF this] t
  have t': "t = \<lparr>shape2 = (height (convert_L lib img'), width (convert_L lib img')),
          data2 = map (\<lambda>y. map (\<lambda>x. if pixel (convert_L lib img') x y = 0 then 0 else 1)
                                [0..<width (convert_L lib img')])
                      [0..<height (convert_L lib img')]\<rparr>"
    by simp
  show "valid2 t"
    by (simp add: t' valid2_def list_all_iff)
  show "\<forall>row \<in> set (data2 t). \<forall>v \<in> set row. v = 0 \<or> v = 1"
    by (auto simp: t')
qed

theorem load_target_binary_witness:
  "Image_open demo_pil ''data/train/a/tiles/flood_label/1.png'' =
     Inr ''data/train/a/tiles/flood_label/1.png'' \<and>
   pixel (convert_L demo_pil ''data/train/a/tiles/flood_label/1.png'') 0 0 = 255 \<and>
   load_target demo_pil ''data/train/a/tiles/flood_label/1.png'' =
     Inr \<lparr>shape2 = (1, 2), data2 = [[1, 0]]\<rparr>"
proof -
  have o: "Image_open demo_pil ''data/train/a/tiles/flood_label/1.png'' =
     Inr ''data/train/a/tiles/flood_label/1.png''"
    by (simp add: demo_pil_def demo_glob_def)
  have p: "pixel (convert_L demo_pil ''data/train/a/tiles/flood_label/1.png'') 0 0 = 255"
    by (simp add: demo_pil_def)
  from load_target_binary [of demo_pil "''data/train/a/tiles/flood_label/1.png''"
      "''data/train/a/tiles/flood_label/1.png''"] o
  have "load_target demo_pil ''data/train/a/tiles/flood_label/1.png'' =
     Inr \<lparr>shape2 = (1, 2), data2 = [[1, 0]]\<rparr>"
    by (simp add: demo_pil_def upt_rec)
  with o p show ?thesis by simp
qed

lemma ebind_simps [simp]: "ebind (Inr x) f = f x" "ebind (Inl e) f = Inl e"
  by (simp_all add: ebind_def)

lemma ebind_Inr_iff: "ebind m f = Inr y \<longleftrightarrow> (\<exists>x. m = Inr x \<and> f x = Inr y)"
  by (cases m) simp_all

lemma getitem_InrE:
  assumes "getitem lib self index = Inr r"
  obtains files pv ph pw vv vh water mask image where
    "py_index (ds_files self) index = Inr files"
    "dict_get files ''vv'' = Inr pv" "load_image lib pv = Inr vv"
    "dict_get files ''vh'' = Inr ph" "load_image lib ph = Inr vh"
    "dict_get files ''water_mask'' = Inr pw" "load_target lib pw = Inr water"
    "if ds_split self \<noteq> ''test''
     then \<exists>pf flood. dict_get files ''flood_mask'' = Inr pf \<and> load_target lib pf = Inr flood \<and>
            stack0 water flood = Inr mask
     else mask = unsqueeze0 water"
    "cat0 vv vh = Inr image"
    "case ds_transforms self of
       None \<Rightarrow> r = Inl \<lparr>sample_image = image, sample_mask = mask\<rparr>
     | Some f \<Rightarrow> \<exists>s. f \<lparr>sample_image = image, sample_mask = mask\<rparr> = Inr s \<and> r = Inr s"
proof -
  from assms obtain files where f: "py_index (ds_files self) index = Inr files"
    and 1: "ebind (ebind (dict_get files ''vv'') (load_image lib)) (\<lambda>vv.
     ebind (ebind (dict_get files ''vh'') (load_image lib)) (\<lambda>vh.
     ebind (ebind (dict_get files ''water_mask'') (load_target lib)) (\<lambda>water_mask.
     ebind (if ds_split self \<noteq> ''test'' then
              ebind (ebind (dict_get files ''flood_mask'') (load_target lib)) (\<lambda>flood_mask.
                stack0 water_mask flood_mask)
            else Inr (unsqueeze0 water_mask)) (\<lambda>mask.
     ebind (cat0 vv vh) (\<lambda>image.
       let sample = \<lparr>sample_image = image, sample_mask = mask\<rparr>
       in case ds_transforms self of
            None \<Rightarrow> Inr (Inl sample)
          | Some f \<Rightarrow> ebind (f sample) (\<lambda>sample. Inr (Inr sample))))))) = Inr r"
    unfolding getitem_def ebind_Inr_iff by blast
  from 1 obtain pv vv where v: "dict_get files ''vv'' = Inr pv" "load_image lib pv = Inr vv"
    and 2: "ebind (ebind (dict_get files ''vh'') (load_image lib)) (\<lambda>vh.
     ebind (ebind (dict_get files ''water_mask'') (load_target lib)) (\<lambda>water_mask.
     ebind (if ds_split self \<noteq> ''test'' then
              ebind (ebind (dict_get files ''flood_mask'') (load_target lib)) (\<lambda>flood_mask.
                stack0 water_mask flood_mask)
            else Inr (unsqueeze0 water_mask)) (\<lambda>mask.
     ebind (cat0 vv vh) (\<lambda>image.
       let sample = \<lparr>sample_image = image, sample_mask = mask\<rparr>
       in case ds_transforms self of
            None \<Rightarrow> Inr (Inl sample)
          | Some f \<Rightarrow> ebind (f sample) (\<lambda>sample. Inr (Inr sample)))))) = Inr r"
    unfolding ebind_Inr_iff by blast
  from 2 obtain ph vh where h: "dict_get files ''vh'' = Inr ph" "load_image lib ph = Inr vh"
    and 3: "ebind (ebind (dict_get files ''water_mask'') (load_target lib)) (\<lambda>water_mask.
     ebind (if ds_split self \<noteq> ''test'' then
              ebind (ebind (dict_get files ''flood_mask'') (load_target lib)) (\<lambda>flood_mask.
                stack0 water_mask flood_mask)
            else Inr (unsqueeze0 water_mask)) (\<lambda>mask.
     ebind (cat0 vv vh) (\<lambda>image.
       let sample = \<lparr>sample_image = image, sample_mask = mask\<rparr>
       in case ds_transforms self of
            None \<Rightarrow> Inr (Inl sample)
          | Some f \<Rightarrow> ebind (f sample) (\<lambda>sample. Inr (Inr sample))))) = Inr r"
    unfolding ebind_Inr_iff by blast
  from 3 obtain pw water where w: "dict_get files ''water_mask'' = Inr pw"
      "load_target lib pw = Inr water"
    and 4: "ebind (if ds_split self \<noteq> ''test'' then
              ebind (ebind (dict_get files ''flood_mask'') (load_target lib)) (\<lambda>flood_mask.
                stack0 water flood_mask)
            else Inr (unsqueeze0 water)) (\<lambda>mask.
     ebind (cat0 vv vh) (\<lambda>image.
       let sample = \<lparr>sample_image = image, sample_mask = mask\<rparr>
       in case ds_transforms self of
            None \<Rightarrow> Inr (Inl sample)
          | Some f \<Rightarrow> ebind (f sample) (\<lambda>sample. Inr (Inr sample)))) = Inr r"
    unfolding ebind_Inr_iff by blast
  from 4 obtain mask image where m: "(if ds_split self \<noteq> ''test'' then
              ebind (ebind (dict_get files ''flood_mask'') (load_target lib)) (\<lambda>flood_mask.
                stack0 water flood_mask)
            else Inr (unsqueeze0 water)) = Inr mask"
    and c: "cat0 vv vh = Inr image"
    and 5: "(case ds_transforms self of
            None \<Rightarrow> Inr (Inl \<lparr>sample_image = image, sample_mask = mask\<rparr>)
          | Some f \<Rightarrow> ebind (f \<lparr>sample_image = image, sample_mask = mask\<rparr>)
                        (\<lambda>sample. Inr (Inr sample))) = Inr r"
    unfolding ebind_Inr_iff Let_def by blast
  have m': "if ds_split self \<noteq> ''test''
     then \<exists>pf flood. dict_get files ''flood_mask'' = Inr pf \<and> load_target lib pf = Inr flood \<and>
            stack0 water flood = Inr mask
     else mask = unsqueeze0 water"
    using m by (auto simp: ebind_Inr_iff split: if_splits)
  have t': "case ds_transforms self of
       None \<Rightarrow> r = Inl \<lparr>sample_image = image, sample_mask = mask\<rparr>
     | Some f \<Rightarrow> \<exists>s. f \<lparr>sample_image = image, sample_mask = mask\<rparr> = Inr s \<and> r = Inr s"
    using 5 by (auto simp: ebind_Inr_iff split: option.splits)
  from f v h w m' c t' show ?thesis
    by (rule that)
qed

lemma load_image_open:
  assumes "Image_open lib path = Inr img"
  shows "load_image lib path = Inr (chw (convert_RGB lib img))"
  using assms by (simp add: load_image_def Let_def chw_def)

lemma load_image_cases:
  assumes "load_image lib path = Inr t"
  obtains img where "Image_open lib path = Inr img" and "t = chw (convert_RGB lib img)"
proof (cases "Image_open lib path")
  case (Inl e)
  with assms show ?thesis by (simp add: load_image_def)
next
  case (Inr img)
  with assms load_image_open [OF Inr] show ?thesis by (simp add: that)
qed

lemma upt_3: "[0..<3] = [0, 1, 2]"
  by (simp add: upt_rec)

lemma shape3_chw: "shape3 (chw img) = (3, height img, width img)"
  by (simp add: chw_def permute_201_def np_array_RGB_def)

lemma data3_chw:
  "data3 (chw img) =
     [map (\<lambda>y. map (\<lambda>x. fst (pixel img x y)) [0..<width img]) [0..<height img],
      map (\<lambda>y. map (\<lambda>x. fst (snd (pixel img x y))) [0..<width img]) [0..<height img],
      map (\<lambda>y. map (\<lambda>x. snd (snd (pixel img x y))) [0..<width img]) [0..<height img]]"
  by (simp add: chw_def permute_201_def np_array_RGB_def upt_3 comp_def case_prod_unfold)

lemma valid3_chw: "valid3 (chw img)"
  by (simp add: valid3_def shape3_chw data3_chw list_all_iff)

lemma chw_index:
  assumes "c < 3" "y < height img" "x < width img"
  shows "data3 (chw img) ! c ! y ! x = data3 (np_array_RGB img) ! y ! x ! c"
proof -
  from assms(1) consider "c = 0" | "c = 1" | "c = 2" by linarith
  then show ?thesis
    using assms(2,3)
    by cases (simp_all add: data3_chw np_array_RGB_def case_prod_unfold)
qed

lemma cat0_chw:
  assumes "height a = height b" "width a = width b"
  shows "cat0 (chw a) (chw b) =
         Inr \<lparr>shape3 = (6, height a, width a), data3 = data3 (chw a) @ data3 (chw b)\<rparr>"
  using assms by (simp add: cat0_def shape3_chw)

lemma cat0_chw_Inr:
  assumes "cat0 (chw a) (chw b) = Inr t"
  shows "height a = height b \<and> width a = width b \<and>
         t = \<lparr>shape3 = (6, height a, width a), data3 = data3 (chw a) @ data3 (chw b)\<rparr>"
  using assms by (auto simp: cat0_def shape3_chw split: if_splits)

lemma valid3_cat0_chw:
  assumes "height a = height b" "width a = width b"
  shows "valid3 \<lparr>shape3 = (6, height a, width a), data3 = data3 (chw a) @ data3 (chw b)\<rparr>"
  using assms by (simp add: valid3_def data3_chw list_all_iff)



lemma load_target_binary_eq:
  assumes "Image_open lib path = Inr img"
  shows "load_target lib path = Inr (binary (convert_L lib img))"
  using load_target_open [OF assms] by (simp add: binary_def)

lemma getitem_success:
  assumes "py_index (ds_files self) index = Inr files"
    and "dict_get files ''vv'' = Inr pv" "Image_open lib pv = Inr iv"
    and "dict_get files ''vh'' = Inr ph" "Image_open lib ph = Inr ih"
    and "dict_get files ''water_mask'' = Inr pw" "Image_open lib pw = Inr iw"
    and "height (convert_RGB lib iv) = height (convert_RGB lib ih)"
    and "width (convert_RGB lib iv) = width (convert_RGB lib ih)"
    and "ds_split self \<noteq> ''test'' \<longrightarrow>
           dict_get files ''flood_mask'' = Inr pf \<and> Image_open lib pf = Inr ifl \<and>
           height (convert_L lib iw) = height (convert_L lib ifl) \<and>
           width (convert_L lib iw) = width (convert_L lib ifl)"
  shows "getitem lib self index =
    (let sample =
       \<lparr>sample_image = \<lparr>shape3 = (6, height (convert_RGB lib iv), width (convert_RGB lib iv)),
                        data3 = data3 (chw (convert_RGB lib iv)) @
                                data3 (chw (convert_RGB lib ih))\<rparr>,
        sample_mask =
          (if ds_split self \<noteq> ''test'' then
             \<lparr>shape3 = (2, height (convert_L lib iw), width (convert_L lib iw)),
              data3 = [data2 (binary (convert_L lib iw)), data2 (binary (convert_L lib ifl))]\<rparr>
           else
             \<lparr>shape3 = (1, height (convert_L lib iw), width (convert_L lib iw)),
              data3 = [data2 (binary (convert_L lib iw))]\<rparr>)\<rparr>
     in case ds_transforms self of
          None \<Rightarrow> Inr (Inl sample)
        | Some f \<Rightarrow> ebind (f sample) (\<lambda>sample. Inr (Inr sample)))"
proof (cases "ds_split self \<noteq> ''test''")
  case True
  with assms(10) have fl: "dict_get files ''flood_mask'' = Inr pf" "Image_open lib pf = Inr ifl"
    "height (convert_L lib iw) = height (convert_L lib ifl)"
    "width (convert_L lib iw) = width (convert_L lib ifl)"
    by simp_all
  have st: "stack0 (binary (convert_L lib iw)) (binary (convert_L lib ifl)) =
     Inr \<lparr>shape3 = (2, height (convert_L lib iw), width (convert_L lib iw)),
              data3 = [data2 (binary (convert_L lib iw)), data2 (binary (convert_L lib ifl))]\<rparr>"
    using fl(3,4) by (simp add: stack0_def binary_def)
  show ?thesis
    using True
    by (simp add: getitem_def assms(1-7) fl(1,2) load_image_open [OF assms(3)]
        load_image_open [OF assms(5)] load_target_binary_eq [OF assms(7)]
        load_target_binary_eq [OF fl(2)] st cat0_chw [OF assms(8,9)])
next
  case False
  have us: "unsqueeze0 (binary (convert_L lib iw)) =
     \<lparr>shape3 = (1, height (convert_L lib iw), width (convert_L lib iw)),
              data3 = [data2 (binary (convert_L lib iw))]\<rparr>"
    by (simp add: unsqueeze0_def binary_def)
  show ?thesis
    using False
    by (simp add: getitem_def assms(1-7) load_image_open [OF assms(3)]
        load_image_open [OF assms(5)] load_target_binary_eq [OF assms(7)]
        us cat0_chw [OF assms(8,9)])
qed

lemma length_data3_chw: "length (data3 (chw img)) = 3"
  by (simp add: data3_chw)

text \<open>
  C3: without transforms, the sample \<open>__getitem__\<close> returns has as image the three
  channels of the decoded VV picture followed by the three channels of the decoded VH
  picture: six channels, channels first. Each band is what \<open>_load_image\<close> returns, the
  decoded height-by-width-by-channel array with its last dimension moved to the front,
  so that entry \<open>(c, y, x)\<close> of the band is entry \<open>(y, x, c)\<close> of the array. The sample
  is returned whenever the index is in range, the files of the record open, the two
  pictures have the same size and so have the masks.
\<close>

theorem getitem_image_channels:
  assumes "ds_transforms self = None"
  shows
    "(getitem lib self index = Inr r \<longrightarrow>
       (\<exists>files pv ph iv ih s.
          r = Inl s \<and>
          py_index (ds_files self) index = Inr files \<and>
          dict_get files ''vv'' = Inr pv \<and> dict_get files ''vh'' = Inr ph \<and>
          Image_open lib pv = Inr iv \<and> Image_open lib ph = Inr ih \<and>
          load_image lib pv = Inr (chw (convert_RGB lib iv)) \<and>
          load_image lib ph = Inr (chw (convert_RGB lib ih)) \<and>
          shape3 (sample_image s) =
            (6, height (convert_RGB lib iv), width (convert_RGB lib iv)) \<and>
          data3 (sample_image s) =
            data3 (chw (convert_RGB lib iv)) @ data3 (chw (convert_RGB lib ih)) \<and>
          take 3 (data3 (sample_image s)) = data3 (chw (convert_RGB lib iv)) \<and>
          drop 3 (data3 (sample_image s)) = data3 (chw (convert_RGB lib ih)) \<and>
          length (data3 (sample_image s)) = 6 \<and>
          valid3 (sample_image s)))
     \<and> (shape3 (np_array_RGB img) = (height img, width img, 3) \<and>
        shape3 (chw img) = (3, height img, width img) \<and>
        (\<forall>c<3. \<forall>y<height img. \<forall>x<width img.
           data3 (chw img) ! c ! y ! x = data3 (np_array_RGB img) ! y ! x ! c))
     \<and> (py_index (ds_files self) index = Inr files' \<and>
        dict_get files' ''vv'' = Inr pv' \<and> Image_open lib pv' = Inr iv' \<and>
        dict_get files' ''vh'' = Inr ph' \<and> Image_open lib ph' = Inr ih' \<and>
        dict_get files' ''water_mask'' = Inr pw' \<and> Image_open lib pw' = Inr iw' \<and>
        height (convert_RGB lib iv') = height (convert_RGB lib ih') \<and>
        width (convert_RGB lib iv') = width (convert_RGB lib ih') \<and>
        (ds_split self \<noteq> ''test'' \<longrightarrow>
           dict_get files' ''flood_mask'' = Inr pf' \<and> Image_open lib pf' = Inr if' \<and>
           height (convert_L lib iw') = height (convert_L lib if') \<and>
           width (convert_L lib iw') = width (convert_L lib if'))
        \<longrightarrow> (\<exists>s. getitem lib self index = Inr (Inl s)))"
proof (intro conjI impI allI)
  assume g: "getitem lib self index = Inr r"
  then obtain files pv ph vv vh mask image where
    f: "py_index (ds_files self) index = Inr files"
    and v: "dict_get files ''vv'' = Inr pv" "load_image lib pv = Inr vv"
    and h: "dict_get files ''vh'' = Inr ph" "load_image lib ph = Inr vh"
    and c: "cat0 vv vh = Inr image"
    and t: "case ds_transforms self of
       None \<Rightarrow> r = Inl \<lparr>sample_image = image, sample_mask = mask\<rparr>
     | Some f \<Rightarrow> \<exists>s. f \<lparr>sample_image = image, sample_mask = mask\<rparr> = Inr s \<and> r = Inr s"
    by (rule getitem_InrE)
  from v(2) obtain iv where iv: "Image_open lib pv = Inr iv" "vv = chw (convert_RGB lib iv)"
    by (rule load_image_cases)
  from h(2) obtain ih where ih: "Image_open lib ph = Inr ih" "vh = chw (convert_RGB lib ih)"
    by (rule load_image_cases)
  from c have sz: "height (convert_RGB lib iv) = height (convert_RGB lib ih)"
      "width (convert_RGB lib iv) = width (convert_RGB lib ih)"
    and im: "image = \<lparr>shape3 = (6, height (convert_RGB lib iv), width (convert_RGB lib iv)),
                     data3 = data3 (chw (convert_RGB lib iv)) @ data3 (chw (convert_RGB lib ih))\<rparr>"
    unfolding iv(2) ih(2) by (auto dest: cat0_chw_Inr)
  from t assms have r: "r = Inl \<lparr>sample_image = image, sample_mask = mask\<rparr>"
    by simp
  have "valid3 image"
    unfolding im by (rule valid3_cat0_chw [OF sz])
  with f v h iv ih r im
  show "\<exists>files pv ph iv ih s.
          r = Inl s \<and>
          py_index (ds_files self) index = Inr files \<and>
          dict_get files ''vv'' = Inr pv \<and> dict_get files ''vh'' = Inr ph \<and>
          Image_open lib pv = Inr iv \<and> Image_open lib ph = Inr ih \<and>
          load_image lib pv = Inr (chw (convert_RGB lib iv)) \<and>
          load_image lib ph = Inr (chw (convert_RGB lib ih)) \<and>
          shape3 (sample_image s) =
            (6, height (convert_RGB lib iv), width (convert_RGB lib iv)) \<and>
          data3 (sample_image s) =
            data3 (chw (convert_RGB lib iv)) @ data3 (chw (convert_RGB lib ih)) \<and>
          take 3 (data3 (sample_image s)) = data3 (chw (convert_RGB lib iv)) \<and>
          drop 3 (data3 (sample_image s)) = data3 (chw (convert_RGB lib ih)) \<and>
          length (data3 (sample_image s)) = 6 \<and>
          valid3 (sample_image s)"
    by (intro exI [of _ files] exI [of _ pv] exI [of _ ph] exI [of _ iv] exI [of _ ih]
        exI [of _ "\<lparr>sample_image = image, sample_mask = mask\<rparr>"])
      (simp add: length_data3_chw)
next
  show "shape3 (np_array_RGB img) = (height img, width img, 3)"
    by (simp add: np_array_RGB_def)
  show "shape3 (chw img) = (3, height img, width img)"
    by (rule shape3_chw)
  show "data3 (chw img) ! c ! y ! x = data3 (np_array_RGB img) ! y ! x ! c"
    if "c < 3" "y < height img" "x < width img" for c y x
    using that by (rule chw_index)
next
  assume a: "py_index (ds_files self) index = Inr files' \<and>
        dict_get files' ''vv'' = Inr pv' \<and> Image_open lib pv' = Inr iv' \<and>
        dict_get files' ''vh'' = Inr ph' \<and> Image_open lib ph' = Inr ih' \<and>
        dict_get files' ''water_mask'' = Inr pw' \<and> Image_open lib pw' = Inr iw' \<and>
        height (convert_RGB lib iv') = height (convert_RGB lib ih') \<and>
        width (convert_RGB lib iv') = width (convert_RGB lib ih') \<and>
        (ds_split self \<noteq> ''test'' \<longrightarrow>
           dict_get files' ''flood_mask'' = Inr pf' \<and> Image_open lib pf' = Inr if' \<and>
           height (convert_L lib iw') = height (convert_L lib if') \<and>
           width (convert_L lib iw') = width (convert_L lib if'))"
  then have "getitem lib self index =
    (let sample =
       \<lparr>sample_image = \<lparr>shape3 = (6, height (convert_RGB lib iv'), width (convert_RGB lib iv')),
                        data3 = data3 (chw (convert_RGB lib iv')) @
                                data3 (chw (convert_RGB lib ih'))\<rparr>,
        sample_mask =
          (if ds_split self \<noteq> ''test'' then
             \<lparr>shape3 = (2, height (convert_L lib iw'), width (convert_L lib iw')),
              data3 = [data2 (binary (convert_L lib iw')), data2 (binary (convert_L lib if'))]\<rparr>
           else
             \<lparr>shape3 = (1, height (convert_L lib iw'), width (convert_L lib iw')),
              data3 = [data2 (binary (convert_L lib iw'))]\<rparr>)\<rparr>
     in case ds_transforms self of
          None \<Rightarrow> Inr (Inl sample)
        | Some f \<Rightarrow> ebind (f sample) (\<lambda>sample. Inr (Inr sample)))"
    by (intro getitem_success [where files = files' and pv = pv' and iv = iv' and ph = ph'
          and ih = ih' and pw = pw' and iw = iw' and pf = pf' and ifl = if']) simp_all
  then show "\<exists>s. getitem lib self index = Inr (Inl s)"
    using assms by (simp add: Let_def)
qed

theorem getitem_image_channels_witness:
  "ds_transforms demo_dataset = None \<and>
   getitem demo_pil demo_dataset 0 =
     Inr (Inl \<lparr>sample_image =
                 \<lparr>shape3 = (6, 1, 2),
                  data3 = [[[10, 11]], [[20, 20]], [[30, 30]],
                           [[40, 41]], [[50, 50]], [[60, 60]]]\<rparr>,
               sample_mask = \<lparr>shape3 = (2, 1, 2), data3 = [[[0, 1]], [[1, 0]]]\<rparr>\<rparr>) \<and>
   load_image demo_pil ''data/train/a/tiles/vv/1.png'' =
     Inr \<lparr>shape3 = (3, 1, 2), data3 = [[[10, 11]], [[20, 20]], [[30, 30]]]\<rparr> \<and>
   load_image demo_pil ''data/train/a/tiles/vh/1.png'' =
     Inr \<lparr>shape3 = (3, 1, 2), data3 = [[[40, 41]], [[50, 50]], [[60, 60]]]\<rparr> \<and>
   valid3 \<lparr>shape3 = (6, 1, 2),
           data3 = [[[10, 11]], [[20, 20]], [[30, 30]],
                    [[40, 41]], [[50, 50]], [[60, 60 :: uint8]]]\<rparr>"
proof -
  let ?image = "\<lparr>shape3 = (6, 1, 2),
                  data3 = [[[10, 11]], [[20, 20]], [[30, 30]],
                           [[40, 41]], [[50, 50]], [[60, 60 :: uint8]]]\<rparr>"
  let ?s = "\<lparr>sample_image = ?image,
            sample_mask = \<lparr>shape3 = (2, 1, 2), data3 = [[[0, 1]], [[1, 0 :: long]]]\<rparr>\<rparr>"
  have n: "ds_transforms demo_dataset = None"
    by (simp add: demo_dataset_def)
  have e: "getitem demo_pil demo_dataset 0 = Inr (Inl ?s)"
    by code_simp
  have v: "load_image demo_pil ''data/train/a/tiles/vv/1.png'' =
     Inr \<lparr>shape3 = (3, 1, 2), data3 = [[[10, 11]], [[20, 20]], [[30, 30]]]\<rparr>"
    "load_image demo_pil ''data/train/a/tiles/vh/1.png'' =
     Inr \<lparr>shape3 = (3, 1, 2), data3 = [[[40, 41]], [[50, 50]], [[60, 60]]]\<rparr>"
    by code_simp+
  note getitem_image_channels [OF n, THEN conjunct1, THEN mp, OF e]
  then obtain s :: raw_sample where "Inl ?s = (Inl s :: raw_sample + raw_sample)"
    and "valid3 (sample_image s)"
    by (elim exE conjE)
  then have "valid3 ?image"
    by auto
  with n e v show ?thesis
    by simp
qed

lemma sorted_zip_records_keys:
  assumes "r \<in> set (sorted_zip_records gl split folder)"
  shows "map fst r =
           (if split \<noteq> ''test'' then [''vv'', ''vh'', ''flood_mask'', ''water_mask'']
            else [''vv'', ''vh'', ''water_mask''])"
  using assms by (auto simp: sorted_zip_records_def dict4_def dict3_def split: if_splits)

lemma load_files_keys:
  assumes "load_files gl root split = Inr files" and "r \<in> set files"
  shows "map fst r =
           (if split \<noteq> ''test'' then [''vv'', ''vh'', ''flood_mask'', ''water_mask'']
            else [''vv'', ''vh'', ''water_mask''])"
proof (cases "metadata_lookup split")
  case (Inl e)
  with assms(1) show ?thesis by (simp add: load_files_def)
next
  case (Inr m)
  from load_files_concat [OF Inr, of gl root] assms
  obtain folder where "r \<in> set (sorted_zip_records gl split folder)"
    by auto
  then show ?thesis by (rule sorted_zip_records_keys)
qed

lemma valid2_binary: "valid2 (binary img)"
  by (simp add: valid2_def binary_def list_all_iff)

lemma load_target_binary_cases:
  assumes "load_target lib path = Inr t"
  obtains img where "Image_open lib path = Inr img" and "t = binary (convert_L lib img)"
proof -
  from assms obtain img where o: "Image_open lib path = Inr img"
    by (rule load_target_cases)
  with assms load_target_binary_eq [OF o] show ?thesis
    by (simp add: that)
qed

lemma stack0_binary_Inr:
  assumes "stack0 (binary a) (binary b) = Inr t"
  shows "t = \<lparr>shape3 = (2, height a, width a), data3 = [data2 (binary a), data2 (binary b)]\<rparr>
         \<and> valid3 t"
  using assms
  by (auto simp: stack0_def binary_def valid3_def list_all_iff split: if_splits)

lemma unsqueeze0_binary:
  "unsqueeze0 (binary a) = \<lparr>shape3 = (1, height a, width a), data3 = [data2 (binary a)]\<rparr>"
  "valid3 (unsqueeze0 (binary a))"
  by (simp_all add: unsqueeze0_def binary_def valid3_def list_all_iff)

text \<open>
  C7: every record \<open>_load_files\<close> produces has exactly the keys \<open>vv\<close>, \<open>vh\<close>,
  \<open>flood_mask\<close>, \<open>water_mask\<close> (four paths) when the split is not the test split, that is
  for train and val, and exactly \<open>vv\<close>, \<open>vh\<close>, \<open>water_mask\<close> (three paths) for the test
  split. The sample \<open>__getitem__\<close> builds (and returns, or hands to the transforms) has a
  mask of two channels, the water mask first and the flood mask second, when the split
  is not the test split, and a mask of one channel, the water mask, for the test split.
\<close>

theorem records_and_mask_channels:
  "(load_files gl root split = Inr files \<longrightarrow>
      (\<forall>r \<in> set files.
         map fst r = (if split \<noteq> ''test'' then [''vv'', ''vh'', ''flood_mask'', ''water_mask'']
                      else [''vv'', ''vh'', ''water_mask'']) \<and>
         length r = (if split \<noteq> ''test'' then 4 else 3)))
   \<and> (getitem lib self index = Inr res \<longrightarrow>
        (\<exists>rec pw iw s.
           py_index (ds_files self) index = Inr rec \<and>
           dict_get rec ''water_mask'' = Inr pw \<and> Image_open lib pw = Inr iw \<and>
           load_target lib pw = Inr (binary (convert_L lib iw)) \<and>
           (case ds_transforms self of
              None \<Rightarrow> res = Inl s
            | Some f \<Rightarrow> \<exists>s'. f s = Inr s' \<and> res = Inr s') \<and>
           valid3 (sample_mask s) \<and>
           (if ds_split self \<noteq> ''test'' then
              \<exists>pf ifl. dict_get rec ''flood_mask'' = Inr pf \<and> Image_open lib pf = Inr ifl \<and>
                load_target lib pf = Inr (binary (convert_L lib ifl)) \<and>
                sample_mask s =
                  \<lparr>shape3 = (2, height (convert_L lib iw), width (convert_L lib iw)),
                   data3 = [data2 (binary (convert_L lib iw)),
                            data2 (binary (convert_L lib ifl))]\<rparr>
            else
              sample_mask s =
                \<lparr>shape3 = (1, height (convert_L lib iw), width (convert_L lib iw)),
                 data3 = [data2 (binary (convert_L lib iw))]\<rparr>)))
   \<and> (ds_transforms self = None \<and>
      py_index (ds_files self) index = Inr rec' \<and>
      dict_get rec' ''vv'' = Inr pv' \<and> Image_open lib pv' = Inr iv' \<and>
      dict_get rec' ''vh'' = Inr ph' \<and> Image_open lib ph' = Inr ih' \<and>
      dict_get rec' ''water_mask'' = Inr pw' \<and> Image_open lib pw' = Inr iw' \<and>
      height (convert_RGB lib iv') = height (convert_RGB lib ih') \<and>
      width (convert_RGB lib iv') = width (convert_RGB lib ih') \<and>
      (ds_split self \<noteq> ''test'' \<longrightarrow>
         dict_get rec' ''flood_mask'' = Inr pf' \<and> Image_open lib pf' = Inr if' \<and>
         height (convert_L lib iw') = height (convert_L lib if') \<and>
         width (convert_L lib iw') = width (convert_L lib if'))
      \<longrightarrow> (\<exists>s. getitem lib self index = Inr (Inl s)))"
proof (intro conjI impI ballI)
  fix r
  assume l: "load_files gl root split = Inr files" and r: "r \<in> set files"
  from load_files_keys [OF l r]
  show k: "map fst r =
           (if split \<noteq> ''test'' then [''vv'', ''vh'', ''flood_mask'', ''water_mask'']
            else [''vv'', ''vh'', ''water_mask''])" .
  have "length r = length (map fst r)" by simp
  also have "\<dots> = (if split \<noteq> ''test'' then 4 else 3)"
    unfolding k by simp
  finally show "length r = (if split \<noteq> ''test'' then 4 else 3)" .
next
  assume g: "getitem lib self index = Inr res"
  then obtain rec pw water mask image where
    f: "py_index (ds_files self) index = Inr rec"
    and w: "dict_get rec ''water_mask'' = Inr pw" "load_target lib pw = Inr water"
    and m: "if ds_split self \<noteq> ''test''
     then \<exists>pf flood. dict_get rec ''flood_mask'' = Inr pf \<and> load_target lib pf = Inr flood \<and>
            stack0 water flood = Inr mask
     else mask = unsqueeze0 water"
    and t: "case ds_transforms self of
       None \<Rightarrow> res = Inl \<lparr>sample_image = image, sample_mask = mask\<rparr>
     | Some f \<Rightarrow> \<exists>s. f \<lparr>sample_image = image, sample_mask = mask\<rparr> = Inr s \<and> res = Inr s"
    by (rule getitem_InrE)
  from w(2) obtain iw where iw: "Image_open lib pw = Inr iw" "water = binary (convert_L lib iw)"
    by (rule load_target_binary_cases)
  let ?s = "\<lparr>sample_image = image, sample_mask = mask\<rparr>"
  have mk: "valid3 mask \<and>
     (if ds_split self \<noteq> ''test'' then
              \<exists>pf ifl. dict_get rec ''flood_mask'' = Inr pf \<and> Image_open lib pf = Inr ifl \<and>
                load_target lib pf = Inr (binary (convert_L lib ifl)) \<and>
                mask =
                  \<lparr>shape3 = (2, height (convert_L lib iw), width (convert_L lib iw)),
                   data3 = [data2 (binary (convert_L lib iw)),
                            data2 (binary (convert_L lib ifl))]\<rparr>
            else
              mask =
                \<lparr>shape3 = (1, height (convert_L lib iw), width (convert_L lib iw)),
                 data3 = [data2 (binary (convert_L lib iw))]\<rparr>)"
  proof (cases "ds_split self \<noteq> ''test''")
    case True
    with m obtain pf flood where pf: "dict_get rec ''flood_mask'' = Inr pf"
      "load_target lib pf = Inr flood" "stack0 water flood = Inr mask"
      by auto
    from pf(2) obtain ifl where ifl: "Image_open lib pf = Inr ifl"
      "flood = binary (convert_L lib ifl)"
      by (rule load_target_binary_cases)
    from stack0_binary_Inr [OF pf(3) [unfolded iw(2) ifl(2)]] pf ifl True
    show ?thesis by auto
  next
    case False
    with m have "mask = unsqueeze0 (binary (convert_L lib iw))"
      by (simp add: iw(2))
    with False unsqueeze0_binary [of "convert_L lib iw"] show ?thesis
      by simp
  qed
  from f w(1) iw w(2) t mk
  show "\<exists>rec pw iw s.
           py_index (ds_files self) index = Inr rec \<and>
           dict_get rec ''water_mask'' = Inr pw \<and> Image_open lib pw = Inr iw \<and>
           load_target lib pw = Inr (binary (convert_L lib iw)) \<and>
           (case ds_transforms self of
              None \<Rightarrow> res = Inl s
            | Some f \<Rightarrow> \<exists>s'. f s = Inr s' \<and> res = Inr s') \<and>
           valid3 (sample_mask s) \<and>
           (if ds_split self \<noteq> ''test'' then
              \<exists>pf ifl. dict_get rec ''flood_mask'' = Inr pf \<and> Image_open lib pf = Inr ifl \<and>
                load_target lib pf = Inr (binary (convert_L lib ifl)) \<and>
                sample_mask s =
                  \<lparr>shape3 = (2, height (convert_L lib iw), width (convert_L lib iw)),
                   data3 = [data2 (binary (convert_L lib iw)),
                            data2 (binary (convert_L lib ifl))]\<rparr>
            else
              sample_mask s =
                \<lparr>shape3 = (1, height (convert_L lib iw), width (convert_L lib iw)),
                 data3 = [data2 (binary (convert_L lib iw))]\<rparr>)"
    by (intro exI [of _ rec] exI [of _ pw] exI [of _ iw] exI [of _ ?s])
      (auto split: if_splits)
next
  assume a: "ds_transforms self = None \<and>
      py_index (ds_files self) index = Inr rec' \<and>
      dict_get rec' ''vv'' = Inr pv' \<and> Image_open lib pv' = Inr iv' \<and>
      dict_get rec' ''vh'' = Inr ph' \<and> Image_open lib ph' = Inr ih' \<and>
      dict_get rec' ''water_mask'' = Inr pw' \<and> Image_open lib pw' = Inr iw' \<and>
      height (convert_RGB lib iv') = height (convert_RGB lib ih') \<and>
      width (convert_RGB lib iv') = width (convert_RGB lib ih') \<and>
      (ds_split self \<noteq> ''test'' \<longrightarrow>
         dict_get rec' ''flood_mask'' = Inr pf' \<and> Image_open lib pf' = Inr if' \<and>
         height (convert_L lib iw') = height (convert_L lib if') \<and>
         width (convert_L lib iw') = width (convert_L lib if'))"
  then have "getitem lib self index =
    (let sample =
       \<lparr>sample_image = \<lparr>shape3 = (6, height (convert_RGB lib iv'), width (convert_RGB lib iv')),
                        data3 = data3 (chw (convert_RGB lib iv')) @
                                data3 (chw (convert_RGB lib ih'))\<rparr>,
        sample_mask =
          (if ds_split self \<noteq> ''test'' then
             \<lparr>shape3 = (2, height (convert_L lib iw'), width (convert_L lib iw')),
              data3 = [data2 (binary (convert_L lib iw')), data2 (binary (convert_L lib if'))]\<rparr>
           else
             \<lparr>shape3 = (1, height (convert_L lib iw'), width (convert_L lib iw')),
              data3 = [data2 (binary (convert_L lib iw'))]\<rparr>)\<rparr>
     in case ds_transforms self of
          None \<Rightarrow> Inr (Inl sample)
        | Some f \<Rightarrow> ebind (f sample) (\<lambda>sample. Inr (Inr sample)))"
    by (intro getitem_success [where files = rec' and pv = pv' and iv = iv' and ph = ph'
          and ih = ih' and pw = pw' and iw = iw' and pf = pf' and ifl = if']) simp_all
  with a show "\<exists>s. getitem lib self index = Inr (Inl s)"
    by (simp add: Let_def)
qed

theorem records_and_mask_channels_witness:
  "load_files demo_glob ''data'' ''train'' = Inr (ds_files demo_dataset) \<and>
   load_files demo_glob ''data'' ''test'' = Inr (ds_files demo_test_dataset) \<and>
   map length (ds_files demo_dataset) = [4, 4] \<and>
   map length (ds_files demo_test_dataset) = [3] \<and>
   getitem demo_pil demo_dataset 0 =
     Inr (Inl \<lparr>sample_image =
                 \<lparr>shape3 = (6, 1, 2),
                  data3 = [[[10, 11]], [[20, 20]], [[30, 30]],
                           [[40, 41]], [[50, 50]], [[60, 60]]]\<rparr>,
               sample_mask = \<lparr>shape3 = (2, 1, 2), data3 = [[[0, 1]], [[1, 0]]]\<rparr>\<rparr>) \<and>
   load_target demo_pil ''data/train/a/tiles/water_body_label/1.png'' =
     Inr \<lparr>shape2 = (1, 2), data2 = [[0, 1]]\<rparr> \<and>
   load_target demo_pil ''data/train/a/tiles/flood_label/1.png'' =
     Inr \<lparr>shape2 = (1, 2), data2 = [[1, 0]]\<rparr> \<and>
   getitem demo_pil demo_test_dataset 0 =
     Inr (Inl \<lparr>sample_image =
                 \<lparr>shape3 = (6, 1, 2),
                  data3 = [[[40, 41]], [[50, 50]], [[60, 60]],
                           [[40, 41]], [[50, 50]], [[60, 60]]]\<rparr>,
               sample_mask = \<lparr>shape3 = (1, 1, 2), data3 = [[[0, 1]]]\<rparr>\<rparr>)"
proof -
  have l: "load_files demo_glob ''data'' ''train'' = Inr (ds_files demo_dataset)"
    "load_files demo_glob ''data'' ''test'' = Inr (ds_files demo_test_dataset)"
    by code_simp+
  note k = records_and_mask_channels [THEN conjunct1, THEN mp]
  from k [OF l(1)] have "list_all (\<lambda>r. length r = 4) (ds_files demo_dataset)"
    by (simp add: list_all_iff)
  then have n4: "map length (ds_files demo_dataset) = [4, 4]"
    by (simp add: demo_dataset_def)
  from k [OF l(2)] have "list_all (\<lambda>r. length r = 3) (ds_files demo_test_dataset)"
    by (simp add: list_all_iff)
  then have n3: "map length (ds_files demo_test_dataset) = [3]"
    by (simp add: demo_test_dataset_def)
  have g: "getitem demo_pil demo_dataset 0 =
     Inr (Inl \<lparr>sample_image =
                 \<lparr>shape3 = (6, 1, 2),
                  data3 = [[[10, 11]], [[20, 20]], [[30, 30]],
                           [[40, 41]], [[50, 50]], [[60, 60]]]\<rparr>,
               sample_mask = \<lparr>shape3 = (2, 1, 2), data3 = [[[0, 1]], [[1, 0]]]\<rparr>\<rparr>)"
    "getitem demo_pil demo_test_dataset 0 =
     Inr (Inl \<lparr>sample_image =
                 \<lparr>shape3 = (6, 1, 2),
                  data3 = [[[40, 41]], [[50, 50]], [[60, 60]],
                           [[40, 41]], [[50, 50]], [[60, 60]]]\<rparr>,
               sample_mask = \<lparr>shape3 = (1, 1, 2), data3 = [[[0, 1]]]\<rparr>\<rparr>)"
    by code_simp+
  have t: "load_target demo_pil ''data/train/a/tiles/water_body_label/1.png'' =
     Inr \<lparr>shape2 = (1, 2), data2 = [[0, 1]]\<rparr>"
    "load_target demo_pil ''data/train/a/tiles/flood_label/1.png'' =
     Inr \<lparr>shape2 = (1, 2), data2 = [[1, 0]]\<rparr>"
    by code_simp+
  from l n4 n3 g t show ?thesis
    by simp
qed

lemma select0_eq:
  assumes "shape3 t = (c, h, w)"
  shows "select0 t i = (if i < c then Inr \<lparr>shape2 = (h, w), data2 = data3 t ! i\<rparr>
                        else Inl IndexError)"
  using assms by (simp add: select0_def)

lemma length_band_means [simp]: "length (band_means ops) = 7"
  by (simp add: band_means_def)

lemma length_band_stds [simp]: "length (band_stds ops) = 7"
  by (simp add: band_stds_def)

lemma preprocess_eq:
  assumes i: "shape3 (sample_image sample) = (6, H, W)"
    and m: "shape3 (sample_mask sample) = (C, H', W')"
    and c: "2 \<le> C"
  shows "preprocess ops sample =
     (if (H, W) \<noteq> (H', W') then
        Inl (RuntimeError ''Sizes of tensors must match except in dimension 0'')
      else if list_ex (f_is_zero ops) (band_stds ops) then Inl ValueError
      else
        Inr \<lparr>sample_image =
               \<lparr>shape3 = (7, H, W),
                data3 = map (\<lambda>(ch, m, s). map (map (\<lambda>x. f_div ops (f_sub ops x m) s)) ch)
                          (zip (map (map (map (\<lambda>x. f_div ops (of_long ops x)
                                                      (f_lit ops ''255.0''))))
                                  (map (map (map ucast)) (data3 (sample_image sample)) @
                                   [data3 (sample_mask sample) ! 0]))
                               (zip (band_means ops) (band_stds ops)))\<rparr>,
             sample_mask =
               \<lparr>shape2 = (H', W'),
                data2 = map (map (\<lambda>v. if 0 < sint v then 1 else 0))
                          (data3 (sample_mask sample) ! 1)\<rparr>\<rparr>)"
proof -
  from c have c': "0 < C" "Suc 0 < C" by simp_all
  show ?thesis
    by (simp add: preprocess_def Let_def select0_eq [OF m] c' unsqueeze0_def cat0_def
        map_tensor3_def map_tensor2_def i norm_def Normalize_def comp_def)
qed

lemma preprocess_one_channel:
  assumes "shape3 (sample_mask sample) = (1, H', W')"
  shows "preprocess ops sample = Inl IndexError"
  by (simp add: preprocess_def Let_def select0_eq [OF assms])

lemma preprocess_few_channels:
  assumes "shape3 (sample_mask sample) = (C, H', W')" and "C < 2"
  shows "preprocess ops sample = Inl IndexError"
proof (cases "C = 0")
  case True
  then show ?thesis
    by (simp add: preprocess_def Let_def select0_eq [OF assms(1)])
next
  case False
  with assms(2) have "C = 1" by simp
  with assms(1) show ?thesis
    by (simp add: preprocess_one_channel)
qed

lemma valid3_channel:
  assumes "valid3 t" and "shape3 t = (c, h, w)" and "k < c"
  shows "length (data3 t ! k) = h \<and> list_all (\<lambda>row. length row = w) (data3 t ! k)"
  using assms by (simp add: valid3_def list_all_length)

lemma valid3_length:
  assumes "valid3 t" and "shape3 t = (c, h, w)"
  shows "length (data3 t) = c"
  using assms by (simp add: valid3_def)

lemma normalized_channels:
  assumes "length I = 6" and "k < 7"
  shows "map (\<lambda>(ch, m, s). map (map (\<lambda>x. f_div ops (f_sub ops x m) s)) ch)
           (zip (map (map (map (\<lambda>x. f_div ops (of_long ops x) (f_lit ops ''255.0''))))
                   (map (map (map ucast)) I @ [M]))
                (zip (band_means ops) (band_stds ops))) ! k =
         (if k < 6 then map (map (\<lambda>x. scaled ops k (ucast x))) (I ! k)
          else map (map (scaled ops 6)) M)"
proof -
  have "k < 6 \<or> k = 6" using assms(2) by linarith
  then show ?thesis
    using assms(1) by (auto simp: nth_append scaled_def comp_def)
qed

lemma preprocess_result:
  assumes vi: "valid3 (sample_image sample)"
    and i: "shape3 (sample_image sample) = (6, H, W)"
    and vm: "valid3 (sample_mask sample)"
    and m: "shape3 (sample_mask sample) = (C, H', W')"
    and r: "preprocess ops sample = Inr out"
  shows "2 \<le> C" and "(H', W') = (H, W)"
    and "shape3 (sample_image out) = (7, H, W)"
    and "length (data3 (sample_image out)) = 7"
    and "k < 6 \<Longrightarrow> data3 (sample_image out) ! k =
           map (map (\<lambda>x. scaled ops k (ucast x))) (data3 (sample_image sample) ! k)"
    and "data3 (sample_image out) ! 6 =
           map (map (scaled ops 6)) (data3 (sample_mask sample) ! 0)"
    and "sample_mask out =
           \<lparr>shape2 = (H, W),
            data2 = map (map (\<lambda>v. if 0 < sint v then 1 else 0))
                      (data3 (sample_mask sample) ! 1)\<rparr>"
proof -
  show c: "2 \<le> C"
  proof (rule ccontr)
    assume "\<not> 2 \<le> C"
    then have "C < 2" by simp
    from preprocess_few_channels [OF m this, of ops] r show False by simp
  qed
  note e = preprocess_eq [OF i m c, of ops]
  from e r show hw: "(H', W') = (H, W)"
    by (auto split: if_splits)
  from e r hw have out: "out =
         \<lparr>sample_image =
               \<lparr>shape3 = (7, H, W),
                data3 = map (\<lambda>(ch, m, s). map (map (\<lambda>x. f_div ops (f_sub ops x m) s)) ch)
                          (zip (map (map (map (\<lambda>x. f_div ops (of_long ops x)
                                                      (f_lit ops ''255.0''))))
                                  (map (map (map ucast)) (data3 (sample_image sample)) @
                                   [data3 (sample_mask sample) ! 0]))
                               (zip (band_means ops) (band_stds ops)))\<rparr>,
             sample_mask =
               \<lparr>shape2 = (H', W'),
                data2 = map (map (\<lambda>v. if 0 < sint v then 1 else 0))
                          (data3 (sample_mask sample) ! 1)\<rparr>\<rparr>"
    by (auto split: if_splits)
  have l: "length (data3 (sample_image sample)) = 6"
    using valid3_length [OF vi i] .
  show "shape3 (sample_image out) = (7, H, W)"
    by (simp add: out)
  show "length (data3 (sample_image out)) = 7"
    by (simp add: out l)
  show "data3 (sample_image out) ! k =
           map (map (\<lambda>x. scaled ops k (ucast x))) (data3 (sample_image sample) ! k)"
    if "k < 6"
    using that normalized_channels [OF l, of k ops "data3 (sample_mask sample) ! 0"]
    by (simp add: out)
  show "data3 (sample_image out) ! 6 =
           map (map (scaled ops 6)) (data3 (sample_mask sample) ! 0)"
    using normalized_channels [OF l, of 6 ops "data3 (sample_mask sample) ! 0"]
    by (simp add: out)
  show "sample_mask out =
           \<lparr>shape2 = (H, W),
            data2 = map (map (\<lambda>v. if 0 < sint v then 1 else 0))
                      (data3 (sample_mask sample) ! 1)\<rparr>"
    using hw by (simp add: out)
qed

lemma list_all_map_rows:
  "list_all (\<lambda>row. length row = w) (map (map f) ch) = list_all (\<lambda>row. length row = w) ch"
  by (simp add: list_all_iff)

lemma preprocess_valid:
  assumes vi: "valid3 (sample_image sample)"
    and i: "shape3 (sample_image sample) = (6, H, W)"
    and vm: "valid3 (sample_mask sample)"
    and m: "shape3 (sample_mask sample) = (C, H', W')"
    and r: "preprocess ops sample = Inr out"
  shows "valid3 (sample_image out)" and "valid2 (sample_mask out)"
proof -
  note p = preprocess_result [OF vi i vm m r]
  from p(1) have c: "0 < C" "1 < C" by simp_all
  from p(2) have hw: "H' = H" "W' = W" by simp_all
  have ch: "length (data3 (sample_image out) ! k) = H \<and>
            list_all (\<lambda>row. length row = W) (data3 (sample_image out) ! k)"
    if "k < 7" for k
  proof (cases "k < 6")
    case True
    from valid3_channel [OF vi i True] p(5) [OF True] show ?thesis
      by (simp add: list_all_map_rows)
  next
    case False
    with that have "k = 6" by simp
    with valid3_channel [OF vm m c(1)] p(6) hw show ?thesis
      by (simp add: list_all_map_rows)
  qed
  show "valid3 (sample_image out)"
    using ch by (simp add: valid3_def p(3,4) list_all_length)
  from valid3_channel [OF vm m c(2)] hw show "valid2 (sample_mask out)"
    by (simp add: valid2_def p(7) list_all_map_rows)
qed

text \<open>
  C9 (as amended): for every sample whose image has 6 channels and whose mask has at
  least 2 channels and the height and width of the image, \<open>preprocess\<close> returns (no
  standard deviation being zero in float arithmetic). Whenever it returns, the result
  has an image of exactly 7 channels: channel \<open>k < 6\<close> is channel \<open>k\<close> of the image and
  channel 6 is the water mask (channel 0 of the mask), every element converted to
  float, divided by 255 and normalised with the mean and standard deviation of its
  channel; the result's mask is the flood channel (channel 1 of the mask) with 1 where
  the value is positive and 0 elsewhere. For a mask of 1 channel it raises
  \<open>IndexError\<close>; for a mask of at least 2 channels whose height or width differs from
  the image's it raises \<open>RuntimeError\<close> in \<open>torch.cat\<close>.
\<close>

theorem preprocess_seven_channels:
  assumes "valid3 (sample_image sample)" and "shape3 (sample_image sample) = (6, H, W)"
    and "valid3 (sample_mask sample)" and "shape3 (sample_mask sample) = (C, H', W')"
  shows
    "(2 \<le> C \<and> (H', W') = (H, W) \<and> \<not> list_ex (f_is_zero ops) (band_stds ops) \<longrightarrow>
        (\<exists>out. preprocess ops sample = Inr out))
     \<and> (preprocess ops sample = Inr out \<longrightarrow>
          2 \<le> C \<and>
          shape3 (sample_image out) = (7, H, W) \<and>
          length (data3 (sample_image out)) = 7 \<and>
          valid3 (sample_image out) \<and>
          (\<forall>k<6. data3 (sample_image out) ! k =
             map (map (\<lambda>x. scaled ops k (ucast x))) (data3 (sample_image sample) ! k)) \<and>
          data3 (sample_image out) ! 6 =
             map (map (scaled ops 6)) (data3 (sample_mask sample) ! 0) \<and>
          sample_mask out =
             \<lparr>shape2 = (H, W),
              data2 = map (map (\<lambda>v. if 0 < sint v then 1 else 0))
                        (data3 (sample_mask sample) ! 1)\<rparr> \<and>
          valid2 (sample_mask out) \<and>
          (\<forall>row \<in> set (data2 (sample_mask out)). \<forall>v \<in> set row. v = 0 \<or> v = 1))
     \<and> (C = 1 \<longrightarrow> preprocess ops sample = Inl IndexError)
     \<and> (2 \<le> C \<and> (H', W') \<noteq> (H, W) \<longrightarrow>
          preprocess ops sample =
            Inl (RuntimeError ''Sizes of tensors must match except in dimension 0''))"
proof (intro conjI impI)
  assume "2 \<le> C \<and> (H', W') = (H, W) \<and> \<not> list_ex (f_is_zero ops) (band_stds ops)"
  then show "\<exists>out. preprocess ops sample = Inr out"
    using preprocess_eq [OF assms(2,4), of ops] by simp
next
  assume "2 \<le> C \<and> (H', W') \<noteq> (H, W)"
  then show "preprocess ops sample =
            Inl (RuntimeError ''Sizes of tensors must match except in dimension 0'')"
    using preprocess_eq [OF assms(2,4), of ops] by auto
next
  assume "C = 1"
  with assms(4) show "preprocess ops sample = Inl IndexError"
    by (simp add: preprocess_one_channel)
next
  assume r: "preprocess ops sample = Inr out"
  note p = preprocess_result [OF assms r]
  note v = preprocess_valid [OF assms r]
  show "2 \<le> C" by (rule p(1))
  show "shape3 (sample_image out) = (7, H, W)" by (rule p(3))
  show "length (data3 (sample_image out)) = 7" by (rule p(4))
  show "valid3 (sample_image out)" by (rule v(1))
  show "\<forall>k<6. data3 (sample_image out) ! k =
             map (map (\<lambda>x. scaled ops k (ucast x))) (data3 (sample_image sample) ! k)"
    using p(5) by blast
  show "data3 (sample_image out) ! 6 =
             map (map (scaled ops 6)) (data3 (sample_mask sample) ! 0)"
    by (rule p(6))
  show "sample_mask out =
             \<lparr>shape2 = (H, W),
              data2 = map (map (\<lambda>v. if 0 < sint v then 1 else 0))
                        (data3 (sample_mask sample) ! 1)\<rparr>"
    by (rule p(7))
  show "valid2 (sample_mask out)" by (rule v(2))
  show "\<forall>row \<in> set (data2 (sample_mask out)). \<forall>v \<in> set row. v = 0 \<or> v = 1"
    by (auto simp: p(7))
qed

theorem preprocess_seven_channels_witness:
  "valid3 (sample_image demo_sample) \<and> shape3 (sample_image demo_sample) = (6, 1, 2) \<and>
   valid3 (sample_mask demo_sample) \<and> shape3 (sample_mask demo_sample) = (2, 1, 2) \<and>
   \<not> list_ex (f_is_zero symbolic) (band_stds symbolic) \<and>
   (\<exists>out. preprocess symbolic demo_sample = Inr out \<and>
      shape3 (sample_image out) = (7, 1, 2) \<and>
      length (data3 (sample_image out)) = 7 \<and>
      data3 (sample_image out) ! 6 =
        [[Div (Sub (Div (OfLong 0) (Lit ''255.0'')) (Lit ''0'')) (Lit ''1''),
          Div (Sub (Div (OfLong 1) (Lit ''255.0'')) (Lit ''0'')) (Lit ''1'')]] \<and>
      sample_mask out = \<lparr>shape2 = (1, 2), data2 = [[1, 0]]\<rparr>) \<and>
   shape3 (sample_mask demo_test_sample) = (1, 1, 2) \<and>
   preprocess symbolic demo_test_sample = Inl IndexError"
proof -
  have a: "valid3 (sample_image demo_sample)" "shape3 (sample_image demo_sample) = (6, 1, 2)"
    "valid3 (sample_mask demo_sample)" "shape3 (sample_mask demo_sample) = (2, 1, 2)"
    by (simp_all add: demo_sample_def valid3_def)
  have b: "valid3 (sample_image demo_test_sample)"
    "shape3 (sample_image demo_test_sample) = (6, 1, 2)"
    "valid3 (sample_mask demo_test_sample)"
    "shape3 (sample_mask demo_test_sample) = (1, 1, 2)"
    by (simp_all add: demo_test_sample_def valid3_def)
  have z: "\<not> list_ex (f_is_zero symbolic) (band_stds symbolic)"
    by (simp add: band_stds_def symbolic_def)
  note t = preprocess_seven_channels [OF a, of symbolic]
  from t [THEN conjunct1] z obtain out where o: "preprocess symbolic demo_sample = Inr out"
    by auto
  note q = t [of out, THEN conjunct2, THEN conjunct1, THEN mp, OF o]
  have 6: "data3 (sample_image out) ! 6 =
        [[Div (Sub (Div (OfLong 0) (Lit ''255.0'')) (Lit ''0'')) (Lit ''1''),
          Div (Sub (Div (OfLong 1) (Lit ''255.0'')) (Lit ''0'')) (Lit ''1'')]]"
    using q by (simp add: demo_sample_def scaled_def band_means_def band_stds_def symbolic_def)
  have m: "sample_mask out = \<lparr>shape2 = (1, 2), data2 = [[1, 0]]\<rparr>"
    using q by (simp add: demo_sample_def)
  from preprocess_seven_channels [OF b, of symbolic]
  have e: "preprocess symbolic demo_test_sample = Inl IndexError"
    by simp
  from q have s: "shape3 (sample_image out) = (7, 1, 2)" "length (data3 (sample_image out)) = 7"
    by simp_all
  from a z b(4) e o s 6 m show ?thesis
    by blast
qed

text \<open>
  C9 as stated fails: a sample whose image has 6 channels and whose mask has 2 channels,
  built by \<open>__getitem__\<close> from tiles whose masks are wider than the images, makes
  \<open>preprocess\<close> raise in \<open>torch.cat\<close> instead of returning.
\<close>

theorem preprocess_size_mismatch_counterexample:
  "getitem wide_mask_pil demo_dataset 0 = Inr (Inl uneven_sample) \<and>
   shape3 (sample_image uneven_sample) = (6, 1, 2) \<and>
   shape3 (sample_mask uneven_sample) = (2, 1, 3) \<and>
   preprocess symbolic uneven_sample =
     Inl (RuntimeError ''Sizes of tensors must match except in dimension 0'')"
  by code_simp

lemma bit_length_0 [simp]: "bit_length 0 = 0"
  by (simp add: bit_length.simps [of 0])

lemma bit_length_pos: "0 < n \<Longrightarrow> bit_length n = Suc (bit_length (n div 2))"
  by (subst bit_length.simps) simp

lemma bit_length_bounds:
  "0 < n \<Longrightarrow> 2 ^ (bit_length n - 1) \<le> n \<and> n < 2 ^ bit_length n"
proof (induction n rule: less_induct)
  case (less n)
  note bl = bit_length_pos [OF less.prems]
  show ?case
  proof (cases "n div 2 = 0")
    case True
    with less.prems have "n = 1" by presburger
    then show ?thesis
      using bl by simp
  next
    case False
    then have pos: "0 < n div 2" by simp
    have lt: "n div 2 < n" using less.prems by simp
    from less.IH [OF lt pos] have ih: "2 ^ (bit_length (n div 2) - 1) \<le> n div 2"
      "n div 2 < 2 ^ bit_length (n div 2)"
      by simp_all
    obtain j where j: "bit_length (n div 2) = Suc j"
      using bit_length_pos [OF pos] by simp
    from ih(1) j have "2 ^ j \<le> n div 2" by simp
    then have lo: "2 * 2 ^ j \<le> n" by presburger
    from ih(2) j have "n div 2 < 2 * 2 ^ j" by simp
    then have hi: "n < 2 * (2 * 2 ^ j)" by presburger
    from lo hi show ?thesis
      by (simp add: bl j)
  qed
qed

lemma bit_length_le:
  assumes "n < 2 ^ k"
  shows "bit_length n \<le> k"
proof (cases "n = 0")
  case True
  then show ?thesis by simp
next
  case False
  then have "2 ^ (bit_length n - 1) \<le> n"
    using bit_length_bounds [of n] by simp
  from this assms have "(2::nat) ^ (bit_length n - 1) < 2 ^ k" by (rule le_less_trans)
  then have "bit_length n - 1 < k" by simp
  then show ?thesis by simp
qed

lemma round_half_even_lower: "(m div 2 ^ e) * 2 ^ e \<le> round_half_even e m"
  by (simp add: round_half_even_def Let_def)

lemma round_half_even_upper: "2 * round_half_even e m \<le> 2 * m + 2 ^ e"
proof -
  let ?q = "m div 2 ^ e" and ?r = "m mod 2 ^ e"
  have m: "?q * 2 ^ e + ?r = m" by (rule div_mult_mod_eq)
  show ?thesis
  proof (cases "2 ^ e < 2 * ?r \<or> (2 * ?r = 2 ^ e \<and> odd ?q)")
    case True
    then have r: "round_half_even e m = ?q * 2 ^ e + 2 ^ e"
      by (simp add: round_half_even_def Let_def)
    from True have "2 ^ e \<le> 2 * ?r" by auto
    then have "2 * (?q * 2 ^ e + 2 ^ e) \<le> 2 * (?q * 2 ^ e + ?r) + 2 ^ e"
      by simp
    then show ?thesis
      unfolding r m .
  next
    case False
    then have r: "round_half_even e m = ?q * 2 ^ e"
      by (simp add: round_half_even_def Let_def)
    have "?q * 2 ^ e \<le> m" by (rule div_times_less_eq_dividend)
    then have "2 * (?q * 2 ^ e) \<le> 2 * m + 2 ^ e" by linarith
    then show ?thesis
      unfolding r .
  qed
qed

lemma multiple_le_div:
  assumes "(d::nat) dvd a" and "a \<le> m"
  shows "a \<le> (m div d) * d"
proof -
  from assms(1) obtain j where a: "a = d * j" by (rule dvdE)
  show ?thesis
  proof (cases "d = 0")
    case True
    with a show ?thesis by simp
  next
    case False
    from assms(2) have "a div d \<le> m div d" by (rule div_le_mono)
    with a False have "j \<le> m div d" by simp
    then have "j * d \<le> (m div d) * d" by (rule mult_le_mono1)
    with a show ?thesis by (simp add: mult.commute)
  qed
qed

lemma size_train_of_floor:
  assumes "n \<le> 2 ^ 50"
  shows "size_train_of n = Inr (int (4 * n div 5))"
proof -
  define k where "k = 4 * n div 5"
  define m where "m = point_eight * n"
  define P :: nat where "P = 2 ^ 52"
  have c5: "5 * point_eight = 4 * P + 1"
    by (simp add: point_eight_def P_def)
  have cP: "point_eight < P"
    by (simp add: point_eight_def P_def)
  have nP: "4 * n \<le> P"
    using assms by (simp add: P_def)
  have Ppos: "0 < P"
    by (simp add: P_def)
  have n53: "n < 2 ^ 53"
    using assms by simp
  have rn: "round53 n = n"
    using bit_length_le [OF n53] by (simp add: round53_def)
  have "(2::nat) ^ 53 \<le> 2 ^ 1024"
    by (rule power_increasing) simp_all
  with n53 have "\<not> (2::nat) ^ 1024 \<le> n"
    by linarith
  then have fo: "float_of_int n = Inr n"
    by (simp add: float_of_int_def rn Let_def)
  have k1: "5 * k \<le> 4 * n" and k2: "4 * n \<le> 5 * k + 4"
    unfolding k_def by presburger+
  have m5: "5 * m = 4 * (P * n) + n"
  proof -
    have "5 * m = (5 * point_eight) * n" by (simp add: m_def)
    also have "\<dots> = (4 * P + 1) * n" by (simp only: c5)
    also have "\<dots> = 4 * (P * n) + n" by (simp add: algebra_simps)
    finally show ?thesis .
  qed
  have "P * (5 * k) \<le> P * (4 * n)"
    using k1 by (rule mult_le_mono2)
  then have a1: "5 * (P * k) \<le> 4 * (P * n)"
    by (simp add: algebra_simps)
  have "P * (4 * n) \<le> P * (5 * k + 4)"
    using k2 by (rule mult_le_mono2)
  then have a2: "4 * (P * n) \<le> 5 * (P * k) + 4 * P"
    by (simp add: algebra_simps)
  have lo: "P * k \<le> m"
    using a1 m5 by linarith
  have R: "P * k \<le> round53 m \<and> round53 m < P * Suc k"
  proof (cases "bit_length m \<le> 53")
    case True
    then have "round53 m = m" by (simp add: round53_def)
    moreover have "m < P * k + P"
      using a2 m5 nP Ppos by linarith
    ultimately show ?thesis
      using lo by simp
  next
    case False
    define e where "e = bit_length m - 53"
    from False have bl: "bit_length m = e + 53"
      by (simp add: e_def)
    have r: "round53 m = round_half_even e m"
      using False by (simp add: round53_def e_def)
    have mpos: "0 < m"
      using False by (cases "m = 0") simp_all
    then have npos: "0 < n"
      by (cases "n = 0") (simp_all add: m_def)
    from bit_length_bounds [OF mpos] have "2 ^ (e + 52) \<le> m"
      by (simp add: bl add.commute)
    then have eP: "2 ^ e * P \<le> m"
      by (simp add: power_add P_def)
    have "m < P * n"
      unfolding m_def using cP npos by simp
    with eP have "2 ^ e * P < P * n"
      by (rule le_less_trans)
    then have "P * 2 ^ e < P * n"
      by (simp only: mult.commute)
    then have en: "2 ^ e < n"
      by (simp only: mult_less_cancel1)
    with assms have e50: "(2::nat) ^ e < 2 ^ 50"
      by linarith
    have "e < 50"
    proof (rule power_less_imp_less_exp)
      show "1 < (2::nat)" by simp
      show "(2::nat) ^ e < 2 ^ 50" by (rule e50)
    qed
    then have "(2::nat) ^ e dvd 2 ^ 52"
      by (intro le_imp_power_dvd) simp
    then have "2 ^ e dvd P * k"
      by (simp add: P_def)
    from multiple_le_div [OF this lo] round_half_even_lower [of m e]
    have lower: "P * k \<le> round_half_even e m"
      by (rule le_trans)
    have "2 * round_half_even e m \<le> 2 * m + 2 ^ e"
      by (rule round_half_even_upper)
    then have "10 * round_half_even e m \<le> 10 * m + 5 * 2 ^ e"
      by linarith
    also have "\<dots> < 10 * (P * k) + 10 * P"
      using a2 m5 nP Ppos en by linarith
    finally have "round_half_even e m < P * k + P"
      by linarith
    with lower show ?thesis
      by (simp add: r)
  qed
  then have "round53 m div P = k"
    by (intro div_nat_eqI) simp_all
  then show ?thesis
    by (simp add: size_train_of_def fo times_point_eight_def int_of_float_def
        m_def k_def P_def)
qed

lemma metadata_train:
  "map_of metadata ''train'' = Some \<lparr>filename = ''train.zip'',
         md5 = ''1e95792fe0f6e3c9000abdeab2a8ab0f'',
         directory = ''train'',
         url = ''https://drive.google.com/file/d/14HqNW5uWLS92n7KrxKgDwUTsSEST6LCr''\<rparr>"
  by (simp add: metadata_def)

lemma metadata_val:
  "map_of metadata ''val'' = Some \<lparr>filename = ''val_with_ref_labels.zip'',
         md5 = ''fd18cecb318efc69f8319f90c3771bdf'',
         directory = ''test'',
         url = ''https://drive.google.com/file/d/19sriKPHCZLfJn_Jmk3Z_0b3VaCBVRVyn''\<rparr>"
  by (simp add: metadata_def)

lemma init_default:
  assumes "map_of metadata split = Some m"
  shows "init dl w root split transforms False False =
     (if path_exists w (os_path_join root [directory m]) then
        (case load_files (glob_glob w) root split of
           Inl e \<Rightarrow> (Inl e, w)
         | Inr files \<Rightarrow>
             (Inr \<lparr>ds_root = root, ds_split = split, ds_transforms = transforms,
                   ds_checksum = False, ds_files = files\<rparr>, w))
      else (Inl (RuntimeError not_found_message), w))"
proof -
  have l: "metadata_lookup split = Inr m"
    using assms by (simp add: metadata_lookup_def)
  show ?thesis
    by (simp add: init_no_download [OF assms] load_files_concat [OF l])
qed

lemma init_Inr_files:
  assumes "map_of metadata split = Some m"
    and "init dl w root split transforms False False = (Inr ds, w')"
  shows "w' = w \<and> path_exists w (os_path_join root [directory m]) \<and>
         load_files (glob_glob w) root split = Inr (ds_files ds) \<and>
         ds_split ds = split \<and> ds_root ds = root \<and> ds_transforms ds = transforms"
  using assms(2) unfolding init_default [OF assms(1)]
  by (auto split: if_splits sum.splits)

lemma py_slice_prefix:
  assumes "0 \<le> a"
  shows "py_slice xs 0 a = take (nat a) xs"
  using assms by (simp add: py_slice_def slice_bound_def Let_def min_def)

lemma py_slice_suffix:
  assumes "0 \<le> a"
  shows "py_slice xs a (int (length xs)) = drop (nat a) xs"
proof (cases "a \<le> int (length xs)")
  case True
  with assms show ?thesis
    by (simp add: py_slice_def slice_bound_def Let_def min_def)
next
  case False
  with assms show ?thesis
    by (simp add: py_slice_def slice_bound_def Let_def min_def)
qed

lemma size_train_of_nonneg:
  assumes "size_train_of n = Inr a"
  shows "0 \<le> a"
  using assms
  by (auto simp: size_train_of_def float_of_int_def int_of_float_def Let_def ebind_def
      split: if_splits)

lemma random_split_two:
  assumes "0 \<le> a" and "length (randperm rng (len dataset) g) = len dataset"
  shows "random_split rng dataset [a, int (len dataset) - a] g =
     Inr [\<lparr>sub_dataset = dataset,
           sub_indices = take (nat a) (randperm rng (len dataset) g)\<rparr>,
          \<lparr>sub_dataset = dataset,
           sub_indices = drop (nat a) (randperm rng (len dataset) g)\<rparr>]"
proof -
  let ?idx = "randperm rng (len dataset) g"
  have "py_slice ?idx a (a + (int (len dataset) - a)) = drop (nat a) ?idx"
    using py_slice_suffix [OF assms(1), of ?idx] assms(2) by simp
  then show ?thesis
    using py_slice_prefix [OF assms(1), of ?idx]
    by (simp add: random_split_def accumulate_def Let_def)
qed

lemma init_world: "snd (init dl w root split transforms False checksum) = w"
  by (simp add: init_def split: sum.splits)

lemma random_split_pair:
  assumes "0 \<le> a"
  shows "random_split rng dataset [a, int (len dataset) - a] g =
     Inr [\<lparr>sub_dataset = dataset,
           sub_indices = py_slice (randperm rng (len dataset) g) 0 a\<rparr>,
          \<lparr>sub_dataset = dataset,
           sub_indices = py_slice (randperm rng (len dataset) g) a (int (len dataset))\<rparr>]"
  by (simp add: random_split_def accumulate_def Let_def)

lemma setup_eq:
  "datamodule_setup dl rng ops w self =
     (case fst (init dl w (root_dir self) ''train'' (Some (preprocess ops)) False False) of
        Inl e \<Rightarrow> (Inl e, w)
      | Inr train_val_dataset \<Rightarrow>
     (case fst (init dl w (root_dir self) ''val'' (Some (preprocess ops)) False False) of
        Inl e \<Rightarrow> (Inl e, w)
      | Inr test_ds \<Rightarrow>
     (case size_train_of (len train_val_dataset) of
        Inl e \<Rightarrow> (Inl e, w)
      | Inr size_train \<Rightarrow>
     (case manual_seed rng (seed self) of
        Inl e \<Rightarrow> (Inl e, w)
      | Inr generator \<Rightarrow>
          (Inr (self\<lparr>test_dataset := Some test_ds,
                     train_dataset := Some
                       \<lparr>sub_dataset = train_val_dataset,
                        sub_indices =
                          py_slice (randperm rng (len train_val_dataset) generator)
                            0 size_train\<rparr>,
                     val_dataset := Some
                       \<lparr>sub_dataset = train_val_dataset,
                        sub_indices =
                          py_slice (randperm rng (len train_val_dataset) generator)
                            size_train (int (len train_val_dataset))\<rparr>\<rparr>), w)))))"
proof -
  obtain r1 where i1: "init dl w (root_dir self) ''train'' (Some (preprocess ops)) False False
      = (r1, w)"
    using init_world [of dl w "root_dir self" "''train''" "Some (preprocess ops)" False]
    by (cases "init dl w (root_dir self) ''train'' (Some (preprocess ops)) False False") simp
  obtain r2 where i2: "init dl w (root_dir self) ''val'' (Some (preprocess ops)) False False
      = (r2, w)"
    using init_world [of dl w "root_dir self" "''val''" "Some (preprocess ops)" False]
    by (cases "init dl w (root_dir self) ''val'' (Some (preprocess ops)) False False") simp
  show ?thesis
  proof (cases r1)
    case (Inl e)
    then show ?thesis by (simp add: datamodule_setup_def i1)
  next
    case r1: (Inr train_ds)
    show ?thesis
    proof (cases r2)
      case (Inl e)
      then show ?thesis by (simp add: datamodule_setup_def i1 i2 r1)
    next
      case r2: (Inr test_ds)
      show ?thesis
      proof (cases "size_train_of (len train_ds)")
        case (Inl e)
        then show ?thesis by (simp add: datamodule_setup_def i1 i2 r1 r2 Let_def)
      next
        case a: (Inr a)
        then have a0: "0 \<le> a" by (rule size_train_of_nonneg)
        show ?thesis
        proof (cases "manual_seed rng (seed self)")
          case (Inl e)
          then show ?thesis by (simp add: datamodule_setup_def i1 i2 r1 r2 a Let_def)
        next
          case (Inr g)
          then show ?thesis
            by (simp add: datamodule_setup_def i1 i2 r1 r2 a Let_def
                random_split_pair [OF a0])
        qed
      qed
    qed
  qed
qed

lemma round53_upper: "2 ^ 53 * round53 m \<le> (2 ^ 53 + 1) * m"
proof (cases "bit_length m \<le> 53")
  case True
  then show ?thesis by (simp add: round53_def)
next
  case False
  define e where "e = bit_length m - 53"
  define R where "R = round_half_even e m"
  define P :: nat where "P = 2 ^ 52"
  from False have bl: "bit_length m = e + 53"
    by (simp add: e_def)
  have r: "round53 m = R"
    using False by (simp add: round53_def e_def R_def)
  have mpos: "0 < m"
    using False by (cases "m = 0") simp_all
  from bit_length_bounds [OF mpos] have "2 ^ (e + 52) \<le> m"
    by (simp add: bl add.commute)
  then have eP: "P * 2 ^ e \<le> m"
    by (simp add: power_add P_def mult.commute)
  have "2 * R \<le> 2 * m + 2 ^ e"
    unfolding R_def by (rule round_half_even_upper)
  then have "P * (2 * R) \<le> P * (2 * m + 2 ^ e)"
    by (rule mult_le_mono2)
  then have "2 * P * R \<le> 2 * P * m + P * 2 ^ e"
    by (simp add: algebra_simps)
  with eP have "2 * P * R \<le> 2 * P * m + m"
    by linarith
  then have "2 * P * R \<le> (2 * P + 1) * m"
    by (simp add: algebra_simps)
  moreover have "2 * P = 2 ^ 53"
    by (simp add: P_def)
  ultimately show ?thesis
    by (simp add: r)
qed

lemma size_train_of_le:
  assumes "size_train_of n = Inr a"
  shows "a \<le> int n"
proof -
  define Q :: nat where "Q = 2 ^ 53"
  define x where "x = round53 n"
  define R where "R = round53 (point_eight * x)"
  from assms have a: "a = int (R div 2 ^ 52)"
    by (auto simp: size_train_of_def float_of_int_def int_of_float_def times_point_eight_def
        Let_def ebind_def x_def R_def split: if_splits)
  have A: "Q * x \<le> (Q + 1) * n"
    unfolding Q_def x_def by (rule round53_upper)
  have B: "Q * R \<le> (Q + 1) * (point_eight * x)"
    unfolding Q_def R_def by (rule round53_upper)
  have "Q * (Q * R) \<le> Q * ((Q + 1) * (point_eight * x))"
    using B by (rule mult_le_mono2)
  also have "\<dots> = ((Q + 1) * point_eight) * (Q * x)"
    by (simp add: algebra_simps)
  also have "\<dots> \<le> ((Q + 1) * point_eight) * ((Q + 1) * n)"
    using A by (rule mult_le_mono2)
  also have "\<dots> = ((Q + 1) * point_eight * (Q + 1)) * n"
    by (simp add: algebra_simps)
  also have "\<dots> \<le> (Q * Q * 2 ^ 52) * n"
  proof (rule mult_le_mono1)
    show "(Q + 1) * point_eight * (Q + 1) \<le> Q * Q * 2 ^ 52"
      by (simp add: Q_def point_eight_def)
  qed
  also have "\<dots> = Q * (Q * (2 ^ 52 * n))"
    by (simp add: algebra_simps)
  finally have "Q * (Q * R) \<le> Q * (Q * (2 ^ 52 * n))" .
  moreover have "0 < Q" by (simp add: Q_def)
  ultimately have "R \<le> 2 ^ 52 * n"
    by simp
  then have "R div 2 ^ 52 \<le> (2 ^ 52 * n) div 2 ^ 52"
    by (rule div_le_mono)
  then have "R div 2 ^ 52 \<le> n"
    by simp
  then show ?thesis
    by (simp add: a)
qed

lemma setup_InrE:
  assumes "fst (datamodule_setup dl rng ops w self) = Inr self'"
  obtains train_ds test_ds a g where
    "fst (init dl w (root_dir self) ''train'' (Some (preprocess ops)) False False) = Inr train_ds"
    "fst (init dl w (root_dir self) ''val'' (Some (preprocess ops)) False False) = Inr test_ds"
    "size_train_of (len train_ds) = Inr a"
    "manual_seed rng (seed self) = Inr g"
    "self' = self\<lparr>test_dataset := Some test_ds,
                     train_dataset := Some
                       \<lparr>sub_dataset = train_ds,
                        sub_indices = py_slice (randperm rng (len train_ds) g) 0 a\<rparr>,
                     val_dataset := Some
                       \<lparr>sub_dataset = train_ds,
                        sub_indices =
                          py_slice (randperm rng (len train_ds) g) a (int (len train_ds))\<rparr>\<rparr>"
  using assms unfolding setup_eq by (auto split: sum.splits)

lemma init_fst_Inr:
  assumes "map_of metadata split = Some m"
    and "fst (init dl w root split transforms False False) = Inr ds"
  shows "load_files (glob_glob w) root split = Inr (ds_files ds) \<and> ds_split ds = split \<and>
         ds_root ds = root \<and> ds_transforms ds = transforms \<and>
         path_exists w (os_path_join root [directory m])"
  using assms(2) unfolding init_default [OF assms(1)]
  by (auto split: if_splits sum.splits)

text \<open>
  C4: \<open>setup\<close> builds the dataset of split \<open>train\<close> and, separately, the dataset of split
  \<open>val\<close>. With \<open>n\<close> the length of the former, the requested train size is
  \<open>int(0.8 * n)\<close> as double arithmetic computes it, the train partition has exactly that
  many indices, the validation partition has \<open>n\<close> minus that many, the two sizes sum to
  \<open>n\<close>, and together the partitions are the drawn permutation cut at the train size. For
  every length up to \<open>2\<^sup>5\<^sup>0\<close> the train size is \<open>\<lfloor>4n/5\<rfloor>\<close>. The test data loader
  (built whenever the batch size is positive and the number of workers is not negative)
  wraps the whole \<open>val\<close> dataset, unshuffled and not partitioned. (\<open>randperm\<close> is assumed to
  return as many indices as it is asked for.)
\<close>

theorem setup_split_sizes:
  assumes "fst (datamodule_setup dl rng ops w self) = Inr self'"
    and "\<forall>k g. length (randperm rng k g) = k"
  shows "\<exists>train_ds test_ds tr va a g.
     fst (init dl w (root_dir self) ''train'' (Some (preprocess ops)) False False) = Inr train_ds \<and>
     fst (init dl w (root_dir self) ''val'' (Some (preprocess ops)) False False) = Inr test_ds \<and>
     ds_split train_ds = ''train'' \<and> ds_split test_ds = ''val'' \<and>
     load_files (glob_glob w) (root_dir self) ''train'' = Inr (ds_files train_ds) \<and>
     load_files (glob_glob w) (root_dir self) ''val'' = Inr (ds_files test_ds) \<and>
     train_dataset self' = Some tr \<and> val_dataset self' = Some va \<and>
     test_dataset self' = Some test_ds \<and>
     sub_dataset tr = train_ds \<and> sub_dataset va = train_ds \<and>
     size_train_of (len train_ds) = Inr a \<and>
     manual_seed rng (seed self) = Inr g \<and>
     int (length (sub_indices tr)) = a \<and>
     int (length (sub_indices va)) = int (len train_ds) - a \<and>
     length (sub_indices tr) + length (sub_indices va) = len train_ds \<and>
     sub_indices tr @ sub_indices va = randperm rng (len train_ds) g \<and>
     (len train_ds \<le> 2 ^ 50 \<longrightarrow>
        length (sub_indices tr) = 4 * len train_ds div 5 \<and>
        length (sub_indices va) = len train_ds - 4 * len train_ds div 5) \<and>
     (0 < batch_size self \<and> 0 \<le> num_workers self \<longrightarrow>
        test_dataloader self' =
          Inr \<lparr>dl_dataset = test_ds, dl_batch_size = batch_size self,
               dl_num_workers = num_workers self, dl_shuffle = False\<rparr>) \<and>
     (\<forall>loader. test_dataloader self' = Inr loader \<longrightarrow>
        dl_dataset loader = test_ds \<and> \<not> dl_shuffle loader)"
proof -
  from assms(1) obtain train_ds test_ds a g where
    i1: "fst (init dl w (root_dir self) ''train'' (Some (preprocess ops)) False False)
           = Inr train_ds"
    and i2: "fst (init dl w (root_dir self) ''val'' (Some (preprocess ops)) False False)
           = Inr test_ds"
    and a: "size_train_of (len train_ds) = Inr a"
    and g: "manual_seed rng (seed self) = Inr g"
    and s: "self' = self\<lparr>test_dataset := Some test_ds,
                     train_dataset := Some
                       \<lparr>sub_dataset = train_ds,
                        sub_indices = py_slice (randperm rng (len train_ds) g) 0 a\<rparr>,
                     val_dataset := Some
                       \<lparr>sub_dataset = train_ds,
                        sub_indices =
                          py_slice (randperm rng (len train_ds) g) a (int (len train_ds))\<rparr>\<rparr>"
    by (rule setup_InrE)
  let ?n = "len train_ds"
  let ?idx = "randperm rng ?n g"
  let ?tr = "\<lparr>sub_dataset = train_ds, sub_indices = take (nat a) ?idx\<rparr>"
  let ?va = "\<lparr>sub_dataset = train_ds, sub_indices = drop (nat a) ?idx\<rparr>"
  have li: "length ?idx = ?n"
    using assms(2) by simp
  have a0: "0 \<le> a" using a by (rule size_train_of_nonneg)
  have an: "a \<le> int ?n" using a by (rule size_train_of_le)
  have p1: "py_slice ?idx 0 a = take (nat a) ?idx"
    using a0 by (rule py_slice_prefix)
  have p2: "py_slice ?idx a (int ?n) = drop (nat a) ?idx"
    using py_slice_suffix [OF a0, of ?idx] li by simp
  note f1 = init_fst_Inr [OF metadata_train i1]
  note f2 = init_fst_Inr [OF metadata_val i2]
  have fl: "a = int (4 * ?n div 5)" if "?n \<le> 2 ^ 50"
    using size_train_of_floor [OF that] a by simp
  have "fst (init dl w (root_dir self) ''train'' (Some (preprocess ops)) False False)
          = Inr train_ds \<and>
     fst (init dl w (root_dir self) ''val'' (Some (preprocess ops)) False False) = Inr test_ds \<and>
     ds_split train_ds = ''train'' \<and> ds_split test_ds = ''val'' \<and>
     load_files (glob_glob w) (root_dir self) ''train'' = Inr (ds_files train_ds) \<and>
     load_files (glob_glob w) (root_dir self) ''val'' = Inr (ds_files test_ds) \<and>
     train_dataset self' = Some ?tr \<and> val_dataset self' = Some ?va \<and>
     test_dataset self' = Some test_ds \<and>
     sub_dataset ?tr = train_ds \<and> sub_dataset ?va = train_ds \<and>
     size_train_of (len train_ds) = Inr a \<and>
     manual_seed rng (seed self) = Inr g \<and>
     int (length (sub_indices ?tr)) = a \<and>
     int (length (sub_indices ?va)) = int (len train_ds) - a \<and>
     length (sub_indices ?tr) + length (sub_indices ?va) = len train_ds \<and>
     sub_indices ?tr @ sub_indices ?va = randperm rng (len train_ds) g \<and>
     (len train_ds \<le> 2 ^ 50 \<longrightarrow>
        length (sub_indices ?tr) = 4 * len train_ds div 5 \<and>
        length (sub_indices ?va) = len train_ds - 4 * len train_ds div 5) \<and>
     (0 < batch_size self \<and> 0 \<le> num_workers self \<longrightarrow>
        test_dataloader self' =
          Inr \<lparr>dl_dataset = test_ds, dl_batch_size = batch_size self,
               dl_num_workers = num_workers self, dl_shuffle = False\<rparr>) \<and>
     (\<forall>loader. test_dataloader self' = Inr loader \<longrightarrow>
        dl_dataset loader = test_ds \<and> \<not> dl_shuffle loader)"
    using i1 i2 f1 f2 a g a0 an li fl
    by (auto simp: s p1 p2 test_dataloader_def DataLoader_new_def split: if_splits)
  then show ?thesis
    by blast
qed

lemma init_fst_permuted:
  assumes "path_exists w1 = path_exists w2"
    and "\<And>p. mset (glob_glob w1 p) = mset (glob_glob w2 p)"
  shows "fst (init dl1 w1 root split transforms False checksum) =
         fst (init dl2 w2 root split transforms False checksum)"
proof -
  have "load_files (glob_glob w1) root split = load_files (glob_glob w2) root split"
    by (rule load_files_permuted) (rule assms(2))
  then show ?thesis
    by (simp add: init_def check_integrity_def assms(1) split: sum.splits)
qed

text \<open>
  C10: two runs of \<open>setup\<close> with the same seed on the same dataset (the same directories
  exist and list the same files, in whatever order) give the same result, whatever the
  state of the global generator and whatever the downloader: the same indices in the
  train partition and the same in the validation partition. The indices are those drawn
  from the generator seeded with \<open>manual_seed(self.seed)\<close>, cut at the train size.
\<close>

theorem setup_seed_deterministic:
  assumes "path_exists w1 = path_exists w2"
    and "\<forall>p. mset (glob_glob w1 p) = mset (glob_glob w2 p)"
  shows "fst (datamodule_setup dl1 rng ops w1 self) = fst (datamodule_setup dl2 rng ops w2 self)
     \<and> (fst (datamodule_setup dl1 rng ops w1 self) = Inr s1 \<and>
        fst (datamodule_setup dl2 rng ops w2 self) = Inr s2 \<longrightarrow>
          map_option (\<lambda>d. set (sub_indices d)) (train_dataset s1) =
            map_option (\<lambda>d. set (sub_indices d)) (train_dataset s2) \<and>
          map_option (\<lambda>d. set (sub_indices d)) (val_dataset s1) =
            map_option (\<lambda>d. set (sub_indices d)) (val_dataset s2) \<and>
          map_option sub_indices (train_dataset s1) =
            map_option sub_indices (train_dataset s2) \<and>
          map_option sub_indices (val_dataset s1) = map_option sub_indices (val_dataset s2))
     \<and> (fst (datamodule_setup dl1 rng ops w1 self) = Inr s1 \<longrightarrow>
          (\<exists>files a g tr va.
             load_files (glob_glob w1) (root_dir self) ''train'' = Inr files \<and>
             size_train_of (length files) = Inr a \<and>
             manual_seed rng (seed self) = Inr g \<and>
             train_dataset s1 = Some tr \<and> val_dataset s1 = Some va \<and>
             sub_indices tr = py_slice (randperm rng (length files) g) 0 a \<and>
             sub_indices va =
               py_slice (randperm rng (length files) g) a (int (length files))))"
proof (intro conjI impI)
  have p: "mset (glob_glob w1 p) = mset (glob_glob w2 p)" for p
    using assms(2) by simp
  have i: "fst (init dl1 w1 root split transforms False False) =
           fst (init dl2 w2 root split transforms False False)" for root split
    and transforms :: "(raw_sample \<Rightarrow> py_error + 'b net_sample) option"
    by (rule init_fst_permuted [OF assms(1) p])
  show e: "fst (datamodule_setup dl1 rng ops w1 self) = fst (datamodule_setup dl2 rng ops w2 self)"
    unfolding setup_eq i [of "root_dir self" _ "Some (preprocess ops)"]
    by (simp split: sum.splits)
  {
    assume "fst (datamodule_setup dl1 rng ops w1 self) = Inr s1 \<and>
        fst (datamodule_setup dl2 rng ops w2 self) = Inr s2"
    with e have "s1 = s2" by simp
    then show "map_option (\<lambda>d. set (sub_indices d)) (train_dataset s1) =
            map_option (\<lambda>d. set (sub_indices d)) (train_dataset s2)"
      and "map_option (\<lambda>d. set (sub_indices d)) (val_dataset s1) =
            map_option (\<lambda>d. set (sub_indices d)) (val_dataset s2)"
      and "map_option sub_indices (train_dataset s1) =
            map_option sub_indices (train_dataset s2)"
      and "map_option sub_indices (val_dataset s1) = map_option sub_indices (val_dataset s2)"
      by simp_all
  }
  assume "fst (datamodule_setup dl1 rng ops w1 self) = Inr s1"
  then obtain train_ds test_ds a g where
    i1: "fst (init dl1 w1 (root_dir self) ''train'' (Some (preprocess ops)) False False)
           = Inr train_ds"
    and a: "size_train_of (len train_ds) = Inr a"
    and g: "manual_seed rng (seed self) = Inr g"
    and s: "s1 = self\<lparr>test_dataset := Some test_ds,
                     train_dataset := Some
                       \<lparr>sub_dataset = train_ds,
                        sub_indices = py_slice (randperm rng (len train_ds) g) 0 a\<rparr>,
                     val_dataset := Some
                       \<lparr>sub_dataset = train_ds,
                        sub_indices =
                          py_slice (randperm rng (len train_ds) g) a (int (len train_ds))\<rparr>\<rparr>"
    by (rule setup_InrE)
  from init_fst_Inr [OF metadata_train i1]
  have "load_files (glob_glob w1) (root_dir self) ''train'' = Inr (ds_files train_ds)"
    by simp
  with a g
  show "\<exists>files a g tr va.
             load_files (glob_glob w1) (root_dir self) ''train'' = Inr files \<and>
             size_train_of (length files) = Inr a \<and>
             manual_seed rng (seed self) = Inr g \<and>
             train_dataset s1 = Some tr \<and> val_dataset s1 = Some va \<and>
             sub_indices tr = py_slice (randperm rng (length files) g) 0 a \<and>
             sub_indices va =
               py_slice (randperm rng (length files) g) a (int (length files))"
    by (intro exI [of _ "ds_files train_ds"] exI [of _ a] exI [of _ g])
      (simp add: s len_def)
qed

lemma five_train:
  "case load_files five_glob ''data'' ''train'' of Inl e \<Rightarrow> False | Inr fs \<Rightarrow> length fs = 5"
  by code_simp

lemma five_val:
  "case load_files five_glob ''data'' ''val'' of Inl e \<Rightarrow> False | Inr fs \<Rightarrow> length fs = 1"
  by code_simp

lemma st: "size_train_of 5 = Inr 4"
    using size_train_of_floor [of 5] by simp

lemma five_setup:
  obtains self' where
    "fst (datamodule_setup offline demo_rng symbolic five_world demo_module) = Inr self'"
proof -
  from five_train obtain fs where fs: "load_files five_glob ''data'' ''train'' = Inr fs"
    "length fs = 5"
    by (auto split: sum.splits)
  from five_val obtain gs where gs: "load_files five_glob ''data'' ''val'' = Inr gs"
    by (auto split: sum.splits)
  have j: "os_path_join ''data'' [''train''] = ''data/train''"
    "os_path_join ''data'' [''test''] = ''data/test''"
    by (simp_all add: os_path_join_def join_step_def)
  have i1: "fst (init offline five_world ''data'' ''train''
              (Some (preprocess symbolic)) False False) =
            Inr \<lparr>ds_root = ''data'', ds_split = ''train'',
                 ds_transforms = Some (preprocess symbolic),
                 ds_checksum = False, ds_files = fs\<rparr>"
    by (simp add: init_default [OF metadata_train] five_world_def j fs)
  have i2: "fst (init offline five_world ''data'' ''val''
              (Some (preprocess symbolic)) False False) =
            Inr \<lparr>ds_root = ''data'', ds_split = ''val'',
                 ds_transforms = Some (preprocess symbolic),
                 ds_checksum = False, ds_files = gs\<rparr>"
    by (simp add: init_default [OF metadata_val] five_world_def j gs)
  have r: "root_dir demo_module = ''data''" "seed demo_module = 1"
    by (simp_all add: demo_module_def datamodule_init_def)
  have ms: "manual_seed demo_rng 1 = Inr 1"
    by (simp add: demo_rng_def)
  have "\<exists>self'. fst (datamodule_setup offline demo_rng symbolic five_world demo_module)
          = Inr self'"
    unfolding setup_eq r i1 i2
    by (simp add: len_def fs st ms)
  then show ?thesis
    using that by blast
qed

lemma rp: "randperm demo_rng 5 1 = [1, 2, 3, 4, 0]"
proof -
  have "rotate 1 [0..<5] = [1, 2, 3, 4, 0::nat]"
    by code_simp
  then show ?thesis
    by (simp add: demo_rng_def)
qed

lemma ix:
  assumes "xs @ ys = [1, 2, 3, 4, 0::nat]" and "length xs = 4"
  shows "xs = [1, 2, 3, 4] \<and> ys = [0]"
  using assms by (simp add: append_eq_conv_conj)

theorem setup_split_sizes_witness:
  "\<exists>self' tr va te.
     fst (datamodule_setup offline demo_rng symbolic five_world demo_module) = Inr self' \<and>
     train_dataset self' = Some tr \<and> sub_indices tr = [1, 2, 3, 4] \<and>
     val_dataset self' = Some va \<and> sub_indices va = [0] \<and>
     len (sub_dataset tr) = 5 \<and> size_train_of 5 = Inr 4 \<and>
     test_dataset self' = Some te \<and> ds_split te = ''val'' \<and> len te = 1 \<and>
     test_dataloader self' =
       Inr \<lparr>dl_dataset = te, dl_batch_size = 64, dl_num_workers = 0, dl_shuffle = False\<rparr>"
proof -
  obtain self' where
    s: "fst (datamodule_setup offline demo_rng symbolic five_world demo_module) = Inr self'"
    by (rule five_setup)
  have r: "\<forall>k g. length (randperm demo_rng k g) = k"
    by (simp add: demo_rng_def)
  from setup_split_sizes [OF s r] obtain train_ds test_ds tr va a g where
    l1: "load_files (glob_glob five_world) (root_dir demo_module) ''train''
           = Inr (ds_files train_ds)"
    and l2: "load_files (glob_glob five_world) (root_dir demo_module) ''val''
           = Inr (ds_files test_ds)"
    and sp: "ds_split test_ds = ''val''"
    and d: "train_dataset self' = Some tr" "val_dataset self' = Some va"
      "test_dataset self' = Some test_ds" "sub_dataset tr = train_ds"
    and a: "size_train_of (len train_ds) = Inr a"
    and g: "manual_seed demo_rng (seed demo_module) = Inr g"
    and n: "int (length (sub_indices tr)) = a"
    and ap: "sub_indices tr @ sub_indices va = randperm demo_rng (len train_ds) g"
    and fl: "len train_ds \<le> 2 ^ 50 \<longrightarrow>
        length (sub_indices tr) = 4 * len train_ds div 5 \<and>
        length (sub_indices va) = len train_ds - 4 * len train_ds div 5"
    and t: "0 < batch_size demo_module \<and> 0 \<le> num_workers demo_module \<longrightarrow>
       test_dataloader self' =
         Inr \<lparr>dl_dataset = test_ds, dl_batch_size = batch_size demo_module,
              dl_num_workers = num_workers demo_module, dl_shuffle = False\<rparr>"
    by (elim exE conjE) (rule that; assumption)
  have n5: "len train_ds = 5"
    using l1 five_train
    by (simp add: five_world_def demo_module_def datamodule_init_def len_def)
  have n1: "len test_ds = 1"
    using l2 five_val
    by (simp add: five_world_def demo_module_def datamodule_init_def len_def)
  have g1: "g = 1"
    using g by (simp add: demo_rng_def demo_module_def datamodule_init_def)
  from fl n5 have lt: "length (sub_indices tr) = 4"
    by simp
  have a4: "size_train_of 5 = Inr 4"
    using a n lt n5 by simp
  from ap n5 g1 have "sub_indices tr @ sub_indices va = [1, 2, 3, 4, 0]"
    by (simp only: rp)
  from ix [OF this lt] have ix: "sub_indices tr = [1, 2, 3, 4]" "sub_indices va = [0]"
    by simp_all
  have t': "test_dataloader self' =
       Inr \<lparr>dl_dataset = test_ds, dl_batch_size = 64, dl_num_workers = 0, dl_shuffle = False\<rparr>"
    using t by (simp add: demo_module_def datamodule_init_def)
  have "fst (datamodule_setup offline demo_rng symbolic five_world demo_module) = Inr self' \<and>
     train_dataset self' = Some tr \<and> sub_indices tr = [1, 2, 3, 4] \<and>
     val_dataset self' = Some va \<and> sub_indices va = [0] \<and>
     len (sub_dataset tr) = 5 \<and> size_train_of 5 = Inr 4 \<and>
     test_dataset self' = Some test_ds \<and> ds_split test_ds = ''val'' \<and> len test_ds = 1 \<and>
     test_dataloader self' =
       Inr \<lparr>dl_dataset = test_ds, dl_batch_size = 64, dl_num_workers = 0,
            dl_shuffle = False\<rparr>"
    using s d ix n5 a4 sp n1 t' by simp
  then show ?thesis
    by (intro exI)
qed

theorem setup_seed_deterministic_witness:
  "path_exists five_world = path_exists other_world \<and>
   default_generator five_world \<noteq> default_generator other_world \<and>
   glob_glob five_world ''data/train/a/tiles/vv/*.png'' \<noteq>
     glob_glob other_world ''data/train/a/tiles/vv/*.png'' \<and>
   fst (datamodule_setup offline demo_rng symbolic five_world demo_module) =
     fst (datamodule_setup offline demo_rng symbolic other_world demo_module) \<and>
   (\<exists>s1. fst (datamodule_setup offline demo_rng symbolic five_world demo_module) = Inr s1)"
proof -
  have p: "path_exists five_world = path_exists other_world"
    by (simp add: five_world_def other_world_def)
  have m: "\<forall>p. mset (glob_glob five_world p) = mset (glob_glob other_world p)"
    by (simp add: five_world_def other_world_def)
  have d: "default_generator five_world \<noteq> default_generator other_world"
    by (simp add: five_world_def other_world_def)
  have v: "glob_glob five_world ''data/train/a/tiles/vv/*.png'' \<noteq>
     glob_glob other_world ''data/train/a/tiles/vv/*.png''"
    by (simp add: five_world_def other_world_def five_glob_def tiles_def)
  obtain s1 where
    s: "fst (datamodule_setup offline demo_rng symbolic five_world demo_module) = Inr s1"
    by (rule five_setup)
  from setup_seed_deterministic [OF p m, of offline demo_rng symbolic demo_module offline]
  have "fst (datamodule_setup offline demo_rng symbolic five_world demo_module) =
     fst (datamodule_setup offline demo_rng symbolic other_world demo_module)"
    by (rule conjunct1)
  with p d v s show ?thesis
    by (intro conjI exI)
qed

end
